theory Spec2Isabelle
  imports Complex_Main "HOL-Library.Stream" "HOL-Library.Sublist"
begin

section \<open>Smart Shopping Finder: the store search of \<open>streamlit_app.py\<close>\<close>

text \<open>
  The development embeds the class \<open>ShoppingFinder\<close> of \<open>src/streamlit_app.py\<close>:
  geocoding, the two place searches, the Haversine distance, the availability
  estimator, the aggregation loop of \<open>search_stores\<close> and the fallback generator.

  Conventions of the embedding:
  \<^item> Coordinates and the Haversine distance are computed over \<^typ>\<open>real\<close>: \<open>np.sin\<close>,
    \<open>np.cos\<close>, \<open>np.arcsin\<close>, \<open>np.sqrt\<close> and \<open>np.radians\<close> are the real functions, and the
    addition of a perturbation to a coordinate is exact.
  \<^item> The other float computations follow IEEE binary64, round to nearest, ties to even
    (\<open>double_of\<close>): the quotient of two integers, its product with 100, the arithmetic
    of \<open>np.random.uniform\<close> and the result of \<open>round\<close>. A decimal literal of these
    computations is the double nearest to it.
  \<^item> Python \<open>int\<close> is \<^typ>\<open>int\<close>.
  \<^item> A Python \<open>str\<close> is a \<^typ>\<open>string\<close> holding its UTF-8 bytes. The Unicode-aware
    methods \<open>str.lower\<close> and \<open>str.strip\<close> belong to the Python runtime; they are taken as
    parameters (record \<open>pystr\<close>), and an ASCII instance is given for concrete runs.
  \<^item> The HTTP service is an input: a function from the request to what
    \<open>requests.get(...).json()\<close> does on it (raise, or return a JSON body).
  \<^item> numpy's global random generator is an input stream of uniform samples, consumed
    in program order.
  \<^item> Effects are threaded through a \<open>world\<close>: the random stream, the log of HTTP
    requests issued, and the messages shown by \<open>st.warning\<close> and \<open>st.error\<close>.
  \<^item> An uncaught Python exception is an \<open>Inl\<close> result.
\<close>

subsection \<open>Strings\<close>

record pystr =
  str_lower :: "string \<Rightarrow> string"
  str_strip :: "string \<Rightarrow> string"

text \<open>Python's \<open>kw in s\<close> on strings: \<open>kw\<close> occurs as a contiguous substring of \<open>s\<close>.\<close>

fun str_in :: "string \<Rightarrow> string \<Rightarrow> bool" where
  "str_in kw [] = (kw = [])"
| "str_in kw (c # s) = (prefix kw (c # s) \<or> str_in kw s)"

text \<open>\<open>any(kw in s for kw in kws)\<close>.\<close>

definition any_in :: "string list \<Rightarrow> string \<Rightarrow> bool" where
  "any_in kws s = list_ex (\<lambda>kw. str_in kw s) kws"

text \<open>The ASCII instance of the string methods, for inputs made of ASCII characters.\<close>

definition ascii_lower_char :: "char \<Rightarrow> char" where
  "ascii_lower_char c =
     (let n = (of_char c :: nat) in if 65 \<le> n \<and> n \<le> 90 then char_of (n + 32) else c)"

definition ascii_space :: "char \<Rightarrow> bool" where
  "ascii_space c = (let n = (of_char c :: nat) in (9 \<le> n \<and> n \<le> 13) \<or> (28 \<le> n \<and> n \<le> 32))"

definition ascii_strip :: "string \<Rightarrow> string" where
  "ascii_strip s = rev (dropWhile ascii_space (rev (dropWhile ascii_space s)))"

definition ascii_str :: pystr where
  "ascii_str = \<lparr>str_lower = map ascii_lower_char, str_strip = ascii_strip\<rparr>"

text \<open>\<open>str(i)\<close> for a non-negative integer: its decimal digits.\<close>

fun str_of_nat :: "nat \<Rightarrow> string" where
  "str_of_nat n =
     (if n < 10 then [char_of (48 + n)]
      else str_of_nat (n div 10) @ [char_of (48 + n mod 10)])"

subsection \<open>Numbers\<close>

datatype exn = ZeroDivisionError

text \<open>Rounding to the nearest integer, ties to the even one.\<close>

definition round_half_even :: "real \<Rightarrow> int" where
  "round_half_even x =
     (let f = \<lfloor>x\<rfloor>; d = x - real_of_int f
      in if d < 1 / 2 then f else if 1 / 2 < d then f + 1 else if even f then f else f + 1)"

text \<open>
  The IEEE binary64 number nearest to a real, ties to even: 53 significant bits, the last
  of weight \<open>2 ^ (e - 52)\<close> for \<open>2 ^ e \<le> |x| < 2 ^ (e + 1)\<close>. Overflow and subnormal numbers
  are left out; the quotients, percentages and samples of this program are in the normal
  range.
\<close>

definition double_of :: "real \<Rightarrow> real" where
  "double_of x =
     (if x = 0 then 0
      else let e = \<lfloor>log 2 \<bar>x\<bar>\<rfloor>;
               u = 2 powr (real_of_int e - 52)
           in real_of_int (round_half_even (x / u)) * u)"

text \<open>Python's true division \<open>a / b\<close> on integers: the correctly rounded quotient.\<close>

definition truediv :: "int \<Rightarrow> int \<Rightarrow> exn + real" where
  "truediv a b =
     (if b = 0 then Inl ZeroDivisionError
      else Inr (double_of (real_of_int a / real_of_int b)))"

text \<open>
  Python's \<open>round(x, ndigits)\<close> on a float: the multiple of \<open>10^-ndigits\<close> nearest to the
  value of \<open>x\<close>, ties to even, returned as the double nearest to that decimal.
\<close>

definition py_round :: "real \<Rightarrow> nat \<Rightarrow> real" where
  "py_round x ndigits =
     double_of (real_of_int (round_half_even (x * 10 ^ ndigits)) / 10 ^ ndigits)"

subsection \<open>The world: random stream, request log, user messages\<close>

type_synonym coord = "real \<times> real"

datatype request =
    GeocodeReq string string
  | NearbyReq coord real string string string
  | TextReq string string

datatype ui_msg = Warning string | Error string

record world =
  rng :: "real stream"
  requests :: "request list"
  ui :: "ui_msg list"

text \<open>\<open>np.random.random()\<close>: the next sample of the stream.\<close>

definition random :: "world \<Rightarrow> real \<times> world" where
  "random w = (shd (rng w), w\<lparr>rng := stl (rng w)\<rparr>)"

text \<open>
  \<open>np.random.uniform(low, high)\<close> is \<open>low + (high - low) * random()\<close>, each operation
  rounded to a double.
\<close>

definition uniform_value :: "real \<Rightarrow> real \<Rightarrow> real \<Rightarrow> real" where
  "uniform_value low high u = double_of (low + double_of (double_of (high - low) * u))"

definition uniform :: "real \<Rightarrow> real \<Rightarrow> world \<Rightarrow> real \<times> world" where
  "uniform low high w = (uniform_value low high (shd (rng w)), w\<lparr>rng := stl (rng w)\<rparr>)"

text \<open>\<open>np.random.randint(low, high)\<close>: an integer of \<open>[low, high)\<close> from the next sample.\<close>

definition randint :: "int \<Rightarrow> int \<Rightarrow> world \<Rightarrow> int \<times> world" where
  "randint low high w =
     (low + \<lfloor>shd (rng w) * real_of_int (high - low)\<rfloor>, w\<lparr>rng := stl (rng w)\<rparr>)"

subsection \<open>The finder\<close>

record finder =
  api_key :: string
  common_stores :: "string list"

text \<open>\<open>ShoppingFinder.__init__\<close>. The sixteenth name ends in U+00EC, bytes C3 AC.\<close>

definition ShoppingFinder :: "string \<Rightarrow> finder" where
  "ShoppingFinder key =
     \<lparr>api_key = key,
      common_stores =
        [''Esselunga'', ''Conad'', ''Coop'', ''Carrefour'', ''Lidl'', ''Eurospin'',
         ''Pam'', ''MD'', ''Tigros'', ''Iper'', ''Iperal'', ''Sigma'', ''Selex'',
         ''Despar'', ''Fresco'', ''NaturaS'' @ [CHR 0xC3, CHR 0xAC], ''U2'', ''Bennet'']\<rparr>"

subsection \<open>Availability estimator\<close>

text \<open>
  The probability computed in the body of the loop of \<open>determine_available_products\<close>
  (from \<open>prob = 0.7\<close> to the item override), for the lowercased store name and item.
\<close>

definition item_prob :: "string \<Rightarrow> string \<Rightarrow> real" where
  "item_prob store_lower item_lower =
     (let prob = (0.7 :: real);
          prob =
            (if any_in [''lidl'', ''eurospin'', ''md'', ''discount''] store_lower then 0.6
             else if any_in [''naturas'' @ [CHR 0xC3, CHR 0xAC], ''bio'', ''naturale'', ''fresco'']
                       store_lower then 0.8
             else if any_in [''esselunga'', ''carrefour'', ''coop'', ''iper''] store_lower then 0.75
             else prob);
          prob =
            (if any_in [''bio'', ''naturale'', ''vegano'', ''integrale''] item_lower then
               (if any_in [''naturas'' @ [CHR 0xC3, CHR 0xAC], ''bio''] store_lower then 0.9 else 0.4)
             else prob)
      in prob)"

text \<open>
  The loop over the items, with the list \<open>available_products\<close> as accumulator. Each
  item takes one draw.
\<close>

fun determine_loop ::
  "pystr \<Rightarrow> string \<Rightarrow> string list \<Rightarrow> string list \<Rightarrow> world \<Rightarrow> string list \<times> world" where
  "determine_loop S store_lower [] available_products w = (available_products, w)"
| "determine_loop S store_lower (item # items) available_products w =
     (let item_lower = str_lower S item;
          prob = item_prob store_lower item_lower;
          (u, w') = random w
      in determine_loop S store_lower items
           (if u < prob then available_products @ [item] else available_products) w')"

definition determine_available_products ::
  "pystr \<Rightarrow> string \<Rightarrow> string list \<Rightarrow> world \<Rightarrow> string list \<times> world" where
  "determine_available_products S store_name items w =
     determine_loop S (str_lower S store_name) items [] w"

text \<open>
  The probability as the specification words it: four store classes by keyword, in the
  order discount, organic/specialty, large chain, default; overridden for an item with
  an organic/dietary keyword.
\<close>

definition discount_keywords :: "string list" where
  "discount_keywords = [''lidl'', ''eurospin'', ''md'', ''discount'']"

definition specialty_keywords :: "string list" where
  "specialty_keywords = [''naturas'' @ [CHR 0xC3, CHR 0xAC], ''bio'', ''naturale'', ''fresco'']"

definition large_chain_keywords :: "string list" where
  "large_chain_keywords = [''esselunga'', ''carrefour'', ''coop'', ''iper'']"

definition dietary_keywords :: "string list" where
  "dietary_keywords = [''bio'', ''naturale'', ''vegano'', ''integrale'']"

definition organic_keywords :: "string list" where
  "organic_keywords = [''naturas'' @ [CHR 0xC3, CHR 0xAC], ''bio'']"

definition spec_probability :: "string \<Rightarrow> string \<Rightarrow> real" where
  "spec_probability store_lower item_lower =
     (if any_in dietary_keywords item_lower then
        (if any_in organic_keywords store_lower then 0.9 else 0.4)
      else if any_in discount_keywords store_lower then 0.6
      else if any_in specialty_keywords store_lower then 0.8
      else if any_in large_chain_keywords store_lower then 0.75
      else 0.7)"

text \<open>The items the specification marks available, given one draw per item.\<close>

definition spec_available :: "pystr \<Rightarrow> string \<Rightarrow> string list \<Rightarrow> real list \<Rightarrow> string list" where
  "spec_available S store_name items draws =
     map fst (filter (\<lambda>(item, u). u < spec_probability (str_lower S store_name) (str_lower S item))
                (zip items draws))"

subsection \<open>Distance calculator\<close>

text \<open>\<open>np.radians\<close>: degrees to radians.\<close>

definition radians :: "real \<Rightarrow> real" where
  "radians x = x * pi / 180"

definition calculate_distance :: "real \<Rightarrow> real \<Rightarrow> real \<Rightarrow> real \<Rightarrow> real" where
  "calculate_distance lat1 lon1 lat2 lon2 =
     (let R = 6371;
          lat1 = radians lat1; lon1 = radians lon1; lat2 = radians lat2; lon2 = radians lon2;
          dlat = lat2 - lat1;
          dlon = lon2 - lon1;
          a = (sin (dlat / 2))\<^sup>2 + cos lat1 * cos lat2 * (sin (dlon / 2))\<^sup>2;
          c = 2 * arcsin (sqrt a)
      in R * c)"

subsection \<open>The HTTP service\<close>

text \<open>
  What \<open>requests.get(url, params, timeout=10)\<close> followed by \<open>response.json()\<close> does:
  it raises (with the text of the exception), or returns a JSON object, of which the
  code reads the keys \<open>status\<close> and \<open>results\<close>; \<open>None\<close> is a missing key.
\<close>

datatype 'r response = Raised string | Json "string option" "'r list option"

text \<open>
  A place of the Places API: \<open>name\<close> and \<open>geometry.location\<close> are part of every place
  (section 6 of the specification); the keys read with \<open>place.get\<close> may be missing.
  \<open>opening_hours\<close> is \<open>None\<close> when the key is missing, \<open>Some None\<close> when the object has
  no \<open>open_now\<close>.
\<close>

record place =
  name :: string
  geometry_location :: coord
  vicinity :: "string option"
  rating :: "real option"
  user_ratings_total :: "int option"
  place_id :: "string option"
  opening_hours :: "bool option option"

text \<open>
  A result of the geocoding API, as far as \<open>geocode_location\<close> reads it: the pair
  \<open>geometry.location.lat\<close>, \<open>geometry.location.lng\<close>, or \<open>Inl k\<close> when one of the
  lookups raises, with \<open>k\<close> the text of the exception.
\<close>

type_synonym geo_result = "string + coord"

record net =
  geocode_json :: "request \<Rightarrow> geo_result response"
  places_json :: "request \<Rightarrow> place response"

definition st_warning :: "string \<Rightarrow> world \<Rightarrow> world" where
  "st_warning msg w = w\<lparr>ui := ui w @ [Warning msg]\<rparr>"

definition st_error :: "string \<Rightarrow> world \<Rightarrow> world" where
  "st_error msg w = w\<lparr>ui := ui w @ [Error msg]\<rparr>"

definition issue :: "request \<Rightarrow> world \<Rightarrow> world" where
  "issue req w = w\<lparr>requests := requests w @ [req]\<rparr>"

text \<open>\<open>str(KeyError(k))\<close>: the key in single quotes.\<close>

definition key_error :: "string \<Rightarrow> string" where
  "key_error k = [CHR 0x27] @ k @ [CHR 0x27]"

subsection \<open>Geolocator\<close>

text \<open>The \<open>except Exception\<close> branch of \<open>geocode_location\<close>.\<close>

definition geocode_except :: "string \<Rightarrow> world \<Rightarrow> coord \<times> world" where
  "geocode_except e w = ((45.698, 9.677), st_error (''Errore geocoding: '' @ e) w)"

text \<open>The \<open>else\<close> branch of \<open>geocode_location\<close>.\<close>

definition geocode_else :: "string \<Rightarrow> world \<Rightarrow> coord \<times> world" where
  "geocode_else location w =
     ((45.698, 9.677),
      st_warning (''Geocoding non riuscito per '' @ [CHR 0x27] @ location @ [CHR 0x27]
                  @ ''. Uso coordinate predefinite.'') w)"

definition geocode_location :: "finder \<Rightarrow> net \<Rightarrow> string \<Rightarrow> world \<Rightarrow> coord \<times> world" where
  "geocode_location self nt location w =
     (let req = GeocodeReq location (api_key self);
          w = issue req w
      in case geocode_json nt req of
           Raised e \<Rightarrow> geocode_except e w
         | Json status results \<Rightarrow>
             (case status of
                None \<Rightarrow> geocode_except (key_error ''status'') w
              | Some s \<Rightarrow>
                  if s = ''OK'' then
                    (case results of
                       None \<Rightarrow> geocode_except (key_error ''results'') w
                     | Some [] \<Rightarrow> geocode_else location w
                     | Some (r # _) \<Rightarrow>
                         (case r of Inl e \<Rightarrow> geocode_except e w | Inr c \<Rightarrow> (c, w)))
                  else geocode_else location w))"

subsection \<open>Place search\<close>

definition search_places_nearby ::
  "finder \<Rightarrow> net \<Rightarrow> real \<Rightarrow> real \<Rightarrow> real \<Rightarrow> string \<Rightarrow> world \<Rightarrow> place list \<times> world" where
  "search_places_nearby self nt lat lng radius keyword w =
     (let req = NearbyReq (lat, lng) radius ''grocery_or_supermarket'' keyword (api_key self);
          w = issue req w
      in case places_json nt req of
           Raised e \<Rightarrow> ([], st_error (''Errore ricerca negozi: '' @ e) w)
         | Json status results \<Rightarrow>
             (case status of
                None \<Rightarrow> ([], st_error (''Errore ricerca negozi: '' @ key_error ''status'') w)
              | Some s \<Rightarrow>
                  if s = ''OK'' then
                    (case results of
                       None \<Rightarrow>
                         ([], st_error (''Errore ricerca negozi: '' @ key_error ''results'') w)
                     | Some rs \<Rightarrow> (rs, w))
                  else ([], st_warning (''Places API error: '' @ s) w)))"

definition search_places_text ::
  "finder \<Rightarrow> net \<Rightarrow> string \<Rightarrow> string \<Rightarrow> world \<Rightarrow> place list \<times> world" where
  "search_places_text self nt query location w =
     (let req = TextReq query (api_key self);
          w = issue req w
      in case places_json nt req of
           Raised e \<Rightarrow> ([], w)
         | Json status results \<Rightarrow>
             (case status of
                None \<Rightarrow> ([], w)
              | Some s \<Rightarrow>
                  if s = ''OK'' then (case results of None \<Rightarrow> ([], w) | Some rs \<Rightarrow> (rs, w))
                  else ([], w)))"

text \<open>The query \<open>f"{store_name} {location}"\<close>.\<close>

definition text_query :: "string \<Rightarrow> string \<Rightarrow> string" where
  "text_query store_name location = store_name @ '' '' @ location"

text \<open>
  The loop \<open>for store_name in self.common_stores[:3]\<close> of \<open>search_stores\<close>, extending
  \<open>places\<close> with the results of each text search.
\<close>

fun text_search_loop ::
  "finder \<Rightarrow> net \<Rightarrow> string \<Rightarrow> string list \<Rightarrow> place list \<Rightarrow> world \<Rightarrow> place list \<times> world" where
  "text_search_loop self nt location [] places w = (places, w)"
| "text_search_loop self nt location (store_name # names) places w =
     (let (text_results, w') =
            search_places_text self nt (text_query store_name location) location w
      in text_search_loop self nt location names (places @ text_results) w')"

text \<open>
  The first part of \<open>search_stores\<close>: the origin from the geocoder, the nearby search with
  radius \<open>max_distance_km * 1000\<close> and the default keyword, and the text searches when
  fewer than 3 places came back.
\<close>

definition fetch_places ::
  "finder \<Rightarrow> net \<Rightarrow> string \<Rightarrow> real \<Rightarrow> world \<Rightarrow> (coord \<times> place list) \<times> world" where
  "fetch_places self nt location max_distance_km w =
     (let ((user_lat, user_lon), w) = geocode_location self nt location w;
          (places, w) =
            search_places_nearby self nt user_lat user_lon (max_distance_km * 1000)
              ''supermarket'' w;
          (places, w) =
            (if length places < 3
             then text_search_loop self nt location (take 3 (common_stores self)) places w
             else (places, w))
      in (((user_lat, user_lon), places), w))"

subsection \<open>Result aggregator\<close>

text \<open>The dictionary appended to \<open>stores_data\<close>, one field per key.\<close>

record store_record =
  name :: string
  address :: string
  distance_km :: real
  rating :: real
  user_ratings_total :: int
  products_found :: "string list"
  products_count :: int
  missing_products :: int
  has_all_products :: bool
  total_items :: int
  match_percentage :: real
  recommended :: bool
  place_id :: string
  opening_now :: "bool option"

text \<open>
  The body of the branch \<open>if distance <= max_distance_km\<close> of the loop of
  \<open>search_stores\<close>, after the availability estimator has run: the counts, the address
  and the record. The division \<open>match_count / len(items)\<close> raises for no items; the
  quotient and its product with 100 are doubles.
\<close>

definition live_record ::
  "pystr \<Rightarrow> place \<Rightarrow> string \<Rightarrow> real \<Rightarrow> string list \<Rightarrow> string list \<Rightarrow> exn + store_record" where
  "live_record S plc store_name distance items available_products =
     (let match_count = int (length available_products);
          missing_products = int (length items) - match_count;
          has_all_products = (match_count = int (length items));
          address = (case vicinity plc of None \<Rightarrow> ''Info non disponibili'' | Some a \<Rightarrow> a);
          address =
            (if address = ''Indirizzo non disponibile'' \<or> str_strip S address = []
             then ''Info non disponibili'' else address)
      in case truediv match_count (int (length items)) of
           Inl e \<Rightarrow> Inl e
         | Inr q \<Rightarrow>
             Inr \<lparr>name = store_name,
                  address = address,
                  distance_km = py_round distance 1,
                  rating = (case place.rating plc of None \<Rightarrow> 4.0 | Some r \<Rightarrow> r),
                  user_ratings_total =
                    (case place.user_ratings_total plc of None \<Rightarrow> 100 | Some n \<Rightarrow> n),
                  products_found = available_products,
                  products_count = match_count,
                  missing_products = missing_products,
                  has_all_products = has_all_products,
                  total_items = int (length items),
                  match_percentage = py_round (double_of (q * 100)) 1,
                  recommended = has_all_products,
                  place_id = (case place.place_id plc of None \<Rightarrow> [] | Some i \<Rightarrow> i),
                  opening_now = (case opening_hours plc of None \<Rightarrow> None | Some h \<Rightarrow> h)\<rparr>)"

text \<open>
  The loop \<open>for place in places\<close> of \<open>search_stores\<close>, with \<open>stores_data\<close> and
  \<open>store_names_processed\<close> as loop state. An exception leaves the loop.
\<close>

fun aggregate_loop ::
  "pystr \<Rightarrow> string list \<Rightarrow> real \<Rightarrow> real \<Rightarrow> real \<Rightarrow> place list \<Rightarrow> store_record list \<Rightarrow>
   string set \<Rightarrow> world \<Rightarrow> (exn + store_record list) \<times> world" where
  "aggregate_loop S items user_lat user_lon max_distance_km [] stores_data processed w =
     (Inr stores_data, w)"
| "aggregate_loop S items user_lat user_lon max_distance_km (plc # places) stores_data processed w =
     (let store_name = place.name plc in
      if store_name \<in> processed
      then aggregate_loop S items user_lat user_lon max_distance_km places stores_data processed w
      else
        let processed = insert store_name processed;
            (place_lat, place_lng) = geometry_location plc;
            distance = calculate_distance user_lat user_lon place_lat place_lng
        in if distance \<le> max_distance_km then
             (let (available_products, w') = determine_available_products S store_name items w
              in case live_record S plc store_name distance items available_products of
                   Inl e \<Rightarrow> (Inl e, w')
                 | Inr r \<Rightarrow>
                     aggregate_loop S items user_lat user_lon max_distance_km places
                       (stores_data @ [r]) processed w')
           else aggregate_loop S items user_lat user_lon max_distance_km places
                  stores_data processed w)"

subsection \<open>Fallback generator\<close>

text \<open>
  The body of the branch \<open>if distance <= max_distance_km\<close> of the loop of
  \<open>get_fallback_stores\<close>, after the availability estimator has run. The rating and the
  review count are drawn before the division is reached.
\<close>

definition fallback_record ::
  "nat \<Rightarrow> string \<Rightarrow> real \<Rightarrow> string list \<Rightarrow> string list \<Rightarrow> world \<Rightarrow>
   (exn + store_record) \<times> world" where
  "fallback_record i store_name distance items available_products w =
     (let match_count = int (length available_products);
          missing_products = int (length items) - match_count;
          has_all_products = (match_count = int (length items));
          (r, w) = uniform (double_of 3.8) (double_of 4.6) w;
          (n, w) = randint 100 1500 w
      in case truediv match_count (int (length items)) of
           Inl e \<Rightarrow> (Inl e, w)
         | Inr q \<Rightarrow>
             (Inr \<lparr>name = store_name,
                   address = ''Info non disponibili'',
                   distance_km = py_round distance 1,
                   rating = py_round r 1,
                   user_ratings_total = n,
                   products_found = available_products,
                   products_count = match_count,
                   missing_products = missing_products,
                   has_all_products = has_all_products,
                   total_items = int (length items),
                   match_percentage = py_round (double_of (q * 100)) 1,
                   recommended = has_all_products,
                   place_id = ''fallback_'' @ str_of_nat i,
                   opening_now = Some True\<rparr>, w))"

text \<open>
  The loop \<open>for i, store_name in enumerate(self.common_stores[:6])\<close>, with
  \<open>fallback_stores\<close> as accumulator.
\<close>

fun fallback_loop ::
  "pystr \<Rightarrow> string list \<Rightarrow> real \<Rightarrow> real \<Rightarrow> real \<Rightarrow> nat \<Rightarrow> string list \<Rightarrow> store_record list \<Rightarrow>
   world \<Rightarrow> (exn + store_record list) \<times> world" where
  "fallback_loop S items user_lat user_lon max_distance_km i [] fallback_stores w =
     (Inr fallback_stores, w)"
| "fallback_loop S items user_lat user_lon max_distance_km i (store_name # names) fallback_stores w =
     (let (dlat, w1) = uniform (- double_of 0.05) (double_of 0.05) w;
          store_lat = user_lat + dlat;
          (dlng, w2) = uniform (- double_of 0.05) (double_of 0.05) w1;
          store_lng = user_lon + dlng;
          distance = calculate_distance user_lat user_lon store_lat store_lng
      in if distance \<le> max_distance_km then
           (let (available_products, w3) = determine_available_products S store_name items w2
            in case fallback_record i store_name distance items available_products w3 of
                 (Inl e, w4) \<Rightarrow> (Inl e, w4)
               | (Inr r, w4) \<Rightarrow>
                   fallback_loop S items user_lat user_lon max_distance_km (Suc i) names
                     (fallback_stores @ [r]) w4)
         else fallback_loop S items user_lat user_lon max_distance_km (Suc i) names
                fallback_stores w2)"

definition get_fallback_stores ::
  "finder \<Rightarrow> pystr \<Rightarrow> string list \<Rightarrow> string \<Rightarrow> real \<Rightarrow> real \<Rightarrow> real \<Rightarrow> world \<Rightarrow>
   (exn + store_record list) \<times> world" where
  "get_fallback_stores self S items location user_lat user_lon max_distance_km w =
     fallback_loop S items user_lat user_lon max_distance_km 0 (take 6 (common_stores self)) [] w"

subsection \<open>The search\<close>

text \<open>
  The second part of \<open>search_stores\<close>: the aggregation loop over the places, then the
  fallback stores when fewer than 3 stores were assembled.
\<close>

definition aggregate ::
  "finder \<Rightarrow> pystr \<Rightarrow> string list \<Rightarrow> string \<Rightarrow> real \<Rightarrow> coord \<Rightarrow> place list \<Rightarrow> world \<Rightarrow>
   (exn + store_record list) \<times> world" where
  "aggregate self S items location max_distance_km user places w =
     (let (user_lat, user_lon) = user in
      case aggregate_loop S items user_lat user_lon max_distance_km places [] {} w of
        (Inl e, w) \<Rightarrow> (Inl e, w)
      | (Inr stores_data, w) \<Rightarrow>
          if length stores_data < 3 then
            (case get_fallback_stores self S items location user_lat user_lon max_distance_km w of
               (Inl e, w) \<Rightarrow> (Inl e, w)
             | (Inr fallback_stores, w) \<Rightarrow> (Inr (stores_data @ fallback_stores), w))
          else (Inr stores_data, w))"

definition search_stores ::
  "finder \<Rightarrow> pystr \<Rightarrow> net \<Rightarrow> string list \<Rightarrow> string \<Rightarrow> real \<Rightarrow> world \<Rightarrow>
   (exn + store_record list) \<times> world" where
  "search_stores self S nt items location max_distance_km w =
     (let ((user, places), w) = fetch_places self nt location max_distance_km w
      in aggregate self S items location max_distance_km user places w)"

text \<open>
  The \<open>disabled\<close> flag of the search button in \<open>main\<close>:
  \<open>len(items) == 0 or not location.strip()\<close>.
\<close>

definition search_button_disabled :: "pystr \<Rightarrow> string list \<Rightarrow> string \<Rightarrow> bool" where
  "search_button_disabled S items location = (length items = 0 \<or> str_strip S location = [])"

section \<open>Notions of the specification\<close>

text \<open>
  The invariant of a store record (section 3), for the list of requested items. The
  percentage is Python's \<open>round(products_count / total_items * 100, 1)\<close>.
\<close>

definition record_invariant :: "string list \<Rightarrow> store_record \<Rightarrow> bool" where
  "record_invariant items r =
     (products_count r + missing_products r = total_items r \<and>
      total_items r = int (length items) \<and>
      has_all_products r = (products_count r = total_items r) \<and>
      match_percentage r =
        py_round
          (double_of (double_of (real_of_int (products_count r) / real_of_int (total_items r)) * 100))
          1)"

text \<open>The Haversine distance of a place from the origin.\<close>

definition place_distance :: "real \<Rightarrow> real \<Rightarrow> place \<Rightarrow> real" where
  "place_distance user_lat user_lon plc =
     calculate_distance user_lat user_lon (fst (geometry_location plc)) (snd (geometry_location plc))"

text \<open>
  A coordinate of the origin perturbed by \<open>uniform(-0.05, 0.05)\<close> on sample \<open>k\<close> of the
  stream, and the distance from the origin of the fallback location generated from the
  samples \<open>k\<close> and \<open>k + 1\<close>.
\<close>

definition perturbed :: "real \<Rightarrow> real stream \<Rightarrow> nat \<Rightarrow> real" where
  "perturbed x g k = x + uniform_value (- double_of 0.05) (double_of 0.05) (g !! k)"

definition fallback_distance :: "real \<Rightarrow> real \<Rightarrow> real stream \<Rightarrow> nat \<Rightarrow> real" where
  "fallback_distance user_lat user_lon g k =
     calculate_distance user_lat user_lon (perturbed user_lat g k) (perturbed user_lon g (Suc k))"

text \<open>
  The names the fallback generator keeps, for \<open>n\<close> requested items and the stream \<open>g\<close> at
  its entry: a name is kept when the location generated from the next two samples is
  within range; a kept name takes \<open>n + 2\<close> further samples (one per item, the rating, the
  review count).
\<close>

fun fallback_names :: "nat \<Rightarrow> real \<Rightarrow> real \<Rightarrow> real \<Rightarrow> real stream \<Rightarrow> string list \<Rightarrow> string list" where
  "fallback_names n user_lat user_lon max_distance_km g [] = []"
| "fallback_names n user_lat user_lon max_distance_km g (store_name # names) =
     (if fallback_distance user_lat user_lon g 0 \<le> max_distance_km
      then store_name #
           fallback_names n user_lat user_lon max_distance_km (sdrop (2 + (n + 2)) g) names
      else fallback_names n user_lat user_lon max_distance_km (sdrop 2 g) names)"

text \<open>
  Failure of the geocoding call: the request raises, or the body has a status other than
  \<open>OK\<close> (or none), or an empty \<open>results\<close> array.
\<close>

definition geocode_failed :: "geo_result response \<Rightarrow> bool" where
  "geocode_failed resp =
     (case resp of Raised e \<Rightarrow> True
      | Json status results \<Rightarrow> status \<noteq> Some ''OK'' \<or> results = Some [])"

text \<open>Failure of a text search: the request raises, or the status is not \<open>OK\<close>.\<close>

definition text_failed :: "place response \<Rightarrow> bool" where
  "text_failed resp =
     (case resp of Raised e \<Rightarrow> True | Json status results \<Rightarrow> status \<noteq> Some ''OK'')"

text \<open>The places a text search for \<open>query\<close> contributes.\<close>

definition text_results :: "net \<Rightarrow> string \<Rightarrow> string \<Rightarrow> place list" where
  "text_results nt key query =
     (case places_json nt (TextReq query key) of
        Raised e \<Rightarrow> []
      | Json status results \<Rightarrow>
          if status = Some ''OK'' then (case results of None \<Rightarrow> [] | Some rs \<Rightarrow> rs) else [])"

section \<open>Concrete inputs\<close>

text \<open>
  A service that geocodes every address to (45.698, 9.677), answers the
  nearby search with the given places and every text search with \<open>ZERO_RESULTS\<close>; a
  service that is down; a fresh world over a given stream of samples.
\<close>

definition net_of :: "place list \<Rightarrow> net" where
  "net_of ps =
     \<lparr>geocode_json = (\<lambda>req. Json (Some ''OK'') (Some [Inr (45.698, 9.677)])),
      places_json =
        (\<lambda>req. case req of
           NearbyReq c r t k a \<Rightarrow> Json (Some ''OK'') (Some ps)
         | _ \<Rightarrow> Json (Some ''ZERO_RESULTS'') (Some []))\<rparr>"

definition net_down :: net where
  "net_down = \<lparr>geocode_json = (\<lambda>req. Raised ''timed out''),
               places_json = (\<lambda>req. Raised ''timed out'')\<rparr>"

definition world_of :: "real stream \<Rightarrow> world" where
  "world_of g = \<lparr>rng = g, requests = [], ui = []\<rparr>"

text \<open>Two places of the same chain: one at the origin, one about 46 km away.\<close>

definition esselunga_near :: place where
  "esselunga_near =
     \<lparr>place.name = ''Esselunga'', geometry_location = (45.698, 9.677),
      vicinity = Some ''Via Corridoni, Bergamo'', place.rating = Some 4.2,
      place.user_ratings_total = Some 200, place.place_id = Some ''ChIJ-near'',
      opening_hours = Some (Some True)\<rparr>"

definition esselunga_far :: place where
  "esselunga_far =
     \<lparr>place.name = ''Esselunga'', geometry_location = (45.46, 9.19),
      vicinity = Some ''Viale Papiniano, Milano'', place.rating = Some 4.1,
      place.user_ratings_total = Some 950, place.place_id = Some ''ChIJ-far'',
      opening_hours = Some None\<rparr>"

text \<open>The world after the five requests of a search against \<open>net_of\<close> with fewer than 3 places.\<close>

definition fetched :: "string \<Rightarrow> string \<Rightarrow> real \<Rightarrow> world \<Rightarrow> world" where
  "fetched key location maxd w =
     w\<lparr>requests := requests w @
          [GeocodeReq location key,
           NearbyReq (45.698, 9.677) (maxd * 1000) ''grocery_or_supermarket'' ''supermarket'' key,
           TextReq (''Esselunga '' @ location) key,
           TextReq (''Conad '' @ location) key,
           TextReq (''Coop '' @ location) key]\<rparr>"

section \<open>Supporting lemmas\<close>

subsection \<open>Doubles\<close>

lemma double_of_0: "double_of 0 = 0"
  by (simp add: double_of_def)

lemma double_of_exponent:
  assumes "2 powr real_of_int e \<le> \<bar>x\<bar>" and "\<bar>x\<bar> < 2 powr (real_of_int e + 1)"
  shows "double_of x = real_of_int (round_half_even (x / 2 powr (real_of_int e - 52))) *
           2 powr (real_of_int e - 52)"
proof -
  have pos: "0 < \<bar>x\<bar>"
    using assms(1) by (smt (verit) powr_gt_zero)
  then have nz: "x \<noteq> 0" by simp
  have "\<lfloor>log 2 \<bar>x\<bar>\<rfloor> = e"
    using assms pos by (simp add: floor_log_eq_powr_iff)
  then show ?thesis
    using nz by (simp add: double_of_def Let_def)
qed

lemma double_of_small:
  assumes "1 \<le> \<bar>x\<bar> * 2 ^ n" and "\<bar>x\<bar> * 2 ^ n < 2"
  shows "double_of x = real_of_int (round_half_even (x * 2 ^ (n + 52))) / 2 ^ (n + 52)"
proof -
  have p: "2 powr (- real n) = 1 / 2 ^ n"
    by (simp add: powr_minus powr_realpow inverse_eq_divide)
  have q: "2 powr (- real n - 52) = 1 / 2 ^ (n + 52)"
  proof -
    have "- real n - 52 = - real (n + 52)" by simp
    then show ?thesis by (simp only: powr_minus powr_realpow inverse_eq_divide)
  qed
  have a: "2 powr real_of_int (- int n) \<le> \<bar>x\<bar>"
    using assms(1) by (simp add: p field_simps)
  have r: "2 powr (1 - real n) = 2 / 2 ^ n"
    by (simp add: powr_diff powr_realpow)
  have b: "\<bar>x\<bar> < 2 powr (real_of_int (- int n) + 1)"
    using assms(2) by (simp add: r field_simps)
  show ?thesis
    using double_of_exponent [OF a b] by (simp add: q)
qed

lemma double_of_large:
  assumes "2 ^ n \<le> \<bar>x\<bar>" and "\<bar>x\<bar> < 2 * 2 ^ n" and "n \<le> 52"
  shows "double_of x = real_of_int (round_half_even (x * 2 ^ (52 - n))) / 2 ^ (52 - n)"
proof -
  have p: "2 powr real n = 2 ^ n"
    by (simp add: powr_realpow)
  have q: "2 powr (real n - 52) = 1 / 2 ^ (52 - n)"
  proof -
    have "real n - 52 = - real (52 - n)" using assms(3) by simp
    then show ?thesis by (simp only: powr_minus powr_realpow inverse_eq_divide)
  qed
  have a: "2 powr real_of_int (int n) \<le> \<bar>x\<bar>"
    using assms(1) by (simp add: p)
  have b: "\<bar>x\<bar> < 2 powr (real_of_int (int n) + 1)"
    using assms(2) by (simp add: powr_add p)
  show ?thesis
    using double_of_exponent [OF a b] by (simp add: q)
qed

lemma double_of_literal_005: "double_of 0.05 = 7205759403792794 / 2 ^ 57"
  by (subst double_of_small [where n = 5]) (simp_all add: round_half_even_def Let_def)

lemma uniform_value_half: "uniform_value (- double_of 0.05) (double_of 0.05) (1 / 2) = 0"
proof -
  have a: "double_of (7205759403792794 / 2 ^ 57 - - (7205759403792794 / 2 ^ 57)) =
      7205759403792794 / 2 ^ 56"
    by (subst double_of_small [where n = 4]) (simp_all add: round_half_even_def Let_def)
  have b: "double_of (7205759403792794 / 2 ^ 56 * (1 / 2)) = 7205759403792794 / 2 ^ 57"
    by (subst double_of_small [where n = 5]) (simp_all add: round_half_even_def Let_def)
  show ?thesis
    unfolding uniform_value_def double_of_literal_005 a b by (simp add: double_of_0)
qed

lemma uniform_value_zero:
  "uniform_value (- double_of 0.05) (double_of 0.05) 0 = - (7205759403792794 / 2 ^ 57)"
proof -
  have c: "double_of (- (7205759403792794 / 2 ^ 57)) = - (7205759403792794 / 2 ^ 57)"
    by (subst double_of_small [where n = 5]) (simp_all add: round_half_even_def Let_def)
  have "uniform_value (- double_of 0.05) (double_of 0.05) 0 =
      double_of (- (7205759403792794 / 2 ^ 57))"
    unfolding uniform_value_def double_of_literal_005 by (simp add: double_of_0)
  then show ?thesis unfolding c .
qed

subsection \<open>Availability estimator\<close>

lemma item_prob_spec: "item_prob store_lower item_lower = spec_probability store_lower item_lower"
  unfolding item_prob_def spec_probability_def Let_def discount_keywords_def
    specialty_keywords_def large_chain_keywords_def dietary_keywords_def organic_keywords_def
  by (rule refl)

lemma determine_loop_spec:
  "determine_loop S store_lower items acc w =
     (acc @ map fst (filter (\<lambda>(item, u). u < spec_probability store_lower (str_lower S item))
                      (zip items (stake (length items) (rng w)))),
      w\<lparr>rng := sdrop (length items) (rng w)\<rparr>)"
proof (induction items arbitrary: acc w)
  case Nil
  show ?case by simp
next
  case (Cons item items)
  show ?case
    by (simp add: Cons.IH random_def item_prob_spec)
qed

subsection \<open>Records\<close>

lemma live_record_Inr:
  assumes "items \<noteq> []"
  shows "\<exists>r. live_record S plc n d items av = Inr r \<and> record_invariant items r \<and>
             name r = n \<and> distance_km r = py_round d 1"
  using assms by (simp add: live_record_def truediv_def record_invariant_def Let_def)

lemma live_record_Inl:
  "live_record S plc n d [] av = Inl ZeroDivisionError"
  by (simp add: live_record_def truediv_def Let_def)

lemma fallback_record_Inr:
  assumes "items \<noteq> []"
  shows "\<exists>r. fallback_record i n d items av w = (Inr r, w\<lparr>rng := sdrop 2 (rng w)\<rparr>) \<and>
             record_invariant items r \<and> name r = n \<and> distance_km r = py_round d 1 \<and>
             place_id r = ''fallback_'' @ str_of_nat i"
  using assms
  by (simp add: fallback_record_def truediv_def record_invariant_def Let_def uniform_def
        randint_def numeral_2_eq_2 del: str_of_nat.simps)

lemma fallback_record_Inl:
  "fst (fallback_record i n d [] av w) = Inl ZeroDivisionError"
  by (simp add: fallback_record_def truediv_def Let_def uniform_def randint_def)

lemma dap_rng:
  "snd (determine_available_products S n items w) = w\<lparr>rng := sdrop (length items) (rng w)\<rparr>"
  by (simp add: determine_available_products_def determine_loop_spec)

lemma perturbed_sdrop: "perturbed x (sdrop c g) k = perturbed x g (c + k)"
  by (simp add: perturbed_def sdrop_snth)

lemma live_record_props:
  assumes "live_record S plc n d items av = Inr r"
  shows "items \<noteq> [] \<and> record_invariant items r \<and> name r = n \<and> distance_km r = py_round d 1"
  using assms
  by (auto simp add: live_record_def truediv_def record_invariant_def Let_def split: if_splits)

lemma fallback_record_snd:
  "snd (fallback_record i n d items av w) = w\<lparr>rng := sdrop 2 (rng w)\<rparr>"
  by (simp add: fallback_record_def truediv_def Let_def uniform_def randint_def numeral_2_eq_2
        del: str_of_nat.simps)

lemma fallback_record_props:
  assumes "fst (fallback_record i n d items av w) = Inr r"
  shows "items \<noteq> [] \<and> record_invariant items r \<and> name r = n \<and> distance_km r = py_round d 1 \<and>
         place_id r = ''fallback_'' @ str_of_nat i"
  using assms
  by (auto simp add: fallback_record_def truediv_def record_invariant_def Let_def uniform_def
        randint_def split: if_splits simp del: str_of_nat.simps)

subsection \<open>Aggregation loop\<close>

lemma aggregate_loop_Cons:
  "aggregate_loop S items ulat ulon maxd (plc # places) stores processed w =
     (if place.name plc \<in> processed
      then aggregate_loop S items ulat ulon maxd places stores processed w
      else if place_distance ulat ulon plc \<le> maxd then
        (case live_record S plc (place.name plc) (place_distance ulat ulon plc) items
                (fst (determine_available_products S (place.name plc) items w)) of
           Inl e \<Rightarrow> (Inl e, w\<lparr>rng := sdrop (length items) (rng w)\<rparr>)
         | Inr r \<Rightarrow>
             aggregate_loop S items ulat ulon maxd places (stores @ [r])
               (insert (place.name plc) processed) (w\<lparr>rng := sdrop (length items) (rng w)\<rparr>))
      else aggregate_loop S items ulat ulon maxd places stores
             (insert (place.name plc) processed) w)"
  by (simp add: place_distance_def Let_def case_prod_beta dap_rng)

lemma aggregate_loop_total:
  assumes "items \<noteq> []"
  shows "\<exists>out w'. aggregate_loop S items ulat ulon maxd places stores processed w = (Inr out, w')"
proof (induction places arbitrary: stores processed w)
  case Nil
  show ?case by simp
next
  case (Cons plc places)
  obtain r where r: "live_record S plc (place.name plc) (place_distance ulat ulon plc) items
                (fst (determine_available_products S (place.name plc) items w)) = Inr r"
    using live_record_Inr [OF assms] by blast
  show ?case
    unfolding aggregate_loop_Cons by (simp add: r Cons.IH)
qed

declare aggregate_loop.simps(2) [simp del]

lemma aggregate_loop_Inr:
  assumes "aggregate_loop S items ulat ulon maxd places stores processed w = (Inr out, w')"
  shows "\<exists>new m. out = stores @ new \<and> rng w' = sdrop m (rng w) \<and>
           requests w' = requests w \<and> ui w' = ui w \<and>
           (\<forall>r\<in>set new. \<exists>p\<in>set places. \<exists>av.
              place_distance ulat ulon p \<le> maxd \<and>
              live_record S p (place.name p) (place_distance ulat ulon p) items av = Inr r)"
  using assms
proof (induction places arbitrary: stores processed w)
  case Nil
  then have "out = stores @ [] \<and> rng w' = sdrop 0 (rng w) \<and> requests w' = requests w \<and>
      ui w' = ui w \<and> (\<forall>r\<in>set []. \<exists>p\<in>set []. \<exists>av.
              place_distance ulat ulon p \<le> maxd \<and>
              live_record S p (place.name p) (place_distance ulat ulon p) items av = Inr r)"
    by simp
  then show ?case by blast
next
  case (Cons plc places)
  let ?d = "place_distance ulat ulon plc"
  let ?w1 = "w\<lparr>rng := sdrop (length items) (rng w)\<rparr>"
  let ?lr = "live_record S plc (place.name plc) ?d items
                (fst (determine_available_products S (place.name plc) items w))"
  consider (skip) "place.name plc \<in> processed"
    | (far) "place.name plc \<notin> processed" "\<not> ?d \<le> maxd"
    | (near) "place.name plc \<notin> processed" "?d \<le> maxd"
    by blast
  then show ?case
  proof cases
    case skip
    with Cons.prems have "aggregate_loop S items ulat ulon maxd places stores processed w = (Inr out, w')"
      by (simp add: aggregate_loop_Cons)
    from Cons.IH [OF this] obtain new m where
      new: "out = stores @ new" "rng w' = sdrop m (rng w)"
        "requests w' = requests w" "ui w' = ui w"
        "\<forall>r\<in>set new. \<exists>p\<in>set places. \<exists>av.
              place_distance ulat ulon p \<le> maxd \<and>
              live_record S p (place.name p) (place_distance ulat ulon p) items av = Inr r"
      by blast
    have "\<forall>r\<in>set new. \<exists>p\<in>set (plc # places). \<exists>av.
              place_distance ulat ulon p \<le> maxd \<and>
              live_record S p (place.name p) (place_distance ulat ulon p) items av = Inr r"
      using new(5) by auto
    with new(1-4) show ?thesis by blast
  next
    case far
    with Cons.prems have "aggregate_loop S items ulat ulon maxd places stores
        (insert (place.name plc) processed) w = (Inr out, w')"
      by (simp add: aggregate_loop_Cons)
    from Cons.IH [OF this] obtain new m where
      new: "out = stores @ new" "rng w' = sdrop m (rng w)"
        "requests w' = requests w" "ui w' = ui w"
        "\<forall>r\<in>set new. \<exists>p\<in>set places. \<exists>av.
              place_distance ulat ulon p \<le> maxd \<and>
              live_record S p (place.name p) (place_distance ulat ulon p) items av = Inr r"
      by blast
    have "\<forall>r\<in>set new. \<exists>p\<in>set (plc # places). \<exists>av.
              place_distance ulat ulon p \<le> maxd \<and>
              live_record S p (place.name p) (place_distance ulat ulon p) items av = Inr r"
      using new(5) by auto
    with new(1-4) show ?thesis by blast
  next
    case near
    with Cons.prems obtain r where r: "?lr = Inr r"
      and rec: "aggregate_loop S items ulat ulon maxd places (stores @ [r])
        (insert (place.name plc) processed) ?w1 = (Inr out, w')"
      by (auto simp add: aggregate_loop_Cons split: sum.splits)
    from Cons.IH [OF rec] obtain new m where
      new: "out = (stores @ [r]) @ new" "rng w' = sdrop m (rng ?w1)"
        "requests w' = requests ?w1" "ui w' = ui ?w1"
        "\<forall>r\<in>set new. \<exists>p\<in>set places. \<exists>av.
              place_distance ulat ulon p \<le> maxd \<and>
              live_record S p (place.name p) (place_distance ulat ulon p) items av = Inr r"
      by blast
    have "out = stores @ (r # new)" using new(1) by simp
    moreover have "rng w' = sdrop (length items + m) (rng w)"
      using new(2) by simp
    moreover have "requests w' = requests w" "ui w' = ui w" using new(3,4) by simp_all
    moreover have "\<forall>r\<in>set (r # new). \<exists>p\<in>set (plc # places). \<exists>av.
              place_distance ulat ulon p \<le> maxd \<and>
              live_record S p (place.name p) (place_distance ulat ulon p) items av = Inr r"
      using new(5) r near(2) by auto
    ultimately show ?thesis by blast
  qed
qed

lemma aggregate_loop_count:
  assumes "aggregate_loop S items ulat ulon maxd places stores processed w = (Inr out, w')"
  shows "length (filter (\<lambda>r. name r = n) out) =
           length (filter (\<lambda>r. name r = n) stores) +
           (if n \<in> processed then 0
            else case find (\<lambda>p. place.name p = n) places of
                   None \<Rightarrow> 0
                 | Some p \<Rightarrow> if place_distance ulat ulon p \<le> maxd then 1 else 0)"
  using assms
proof (induction places arbitrary: stores processed w)
  case Nil
  then show ?case by simp
next
  case (Cons plc places)
  let ?d = "place_distance ulat ulon plc"
  let ?w1 = "w\<lparr>rng := sdrop (length items) (rng w)\<rparr>"
  let ?lr = "live_record S plc (place.name plc) ?d items
                (fst (determine_available_products S (place.name plc) items w))"
  consider (skip) "place.name plc \<in> processed"
    | (far) "place.name plc \<notin> processed" "\<not> ?d \<le> maxd"
    | (near) "place.name plc \<notin> processed" "?d \<le> maxd"
    by blast
  then show ?case
  proof cases
    case skip
    with Cons.prems have "aggregate_loop S items ulat ulon maxd places stores processed w = (Inr out, w')"
      by (simp add: aggregate_loop_Cons)
    from Cons.IH [OF this] skip show ?thesis by auto
  next
    case far
    with Cons.prems have "aggregate_loop S items ulat ulon maxd places stores
        (insert (place.name plc) processed) w = (Inr out, w')"
      by (simp add: aggregate_loop_Cons)
    from Cons.IH [OF this] far show ?thesis by auto
  next
    case near
    with Cons.prems obtain r where r: "?lr = Inr r"
      and rec: "aggregate_loop S items ulat ulon maxd places (stores @ [r])
        (insert (place.name plc) processed) ?w1 = (Inr out, w')"
      by (auto simp add: aggregate_loop_Cons split: sum.splits)
    have nr: "name r = place.name plc"
      using r by (auto simp add: live_record_def Let_def split: sum.splits)
    from Cons.IH [OF rec] near nr show ?thesis by auto
  qed
qed

subsection \<open>Fallback loop\<close>

lemma fallback_distance_sdrop:
  "fallback_distance ulat ulon (sdrop c g) k = fallback_distance ulat ulon g (c + k)"
  by (simp add: fallback_distance_def perturbed_sdrop)

lemma fallback_loop_Cons:
  "fallback_loop S items ulat ulon maxd i (n # names) fs w =
     (let d = fallback_distance ulat ulon (rng w) 0;
          w2 = w\<lparr>rng := stl (stl (rng w))\<rparr>;
          w3 = w\<lparr>rng := sdrop (length items) (stl (stl (rng w)))\<rparr>;
          w4 = w\<lparr>rng := stl (stl (sdrop (length items) (stl (stl (rng w)))))\<rparr>
      in if d \<le> maxd then
           (case fst (fallback_record i n d items (fst (determine_available_products S n items w2)) w3) of
              Inl e \<Rightarrow> (Inl e, w4)
            | Inr r \<Rightarrow> fallback_loop S items ulat ulon maxd (Suc i) names (fs @ [r]) w4)
         else fallback_loop S items ulat ulon maxd (Suc i) names fs w2)"
  by (simp add: Let_def case_prod_beta uniform_def dap_rng fallback_record_snd
        fallback_distance_def perturbed_def numeral_2_eq_2 cong: sum.case_cong)

declare fallback_loop.simps(2) [simp del]

lemma stl2_sdrop: "stl (stl g) = sdrop 2 g"
  by (simp add: numeral_2_eq_2)

lemma stl2_sdrop_stl2: "stl (stl (sdrop n (stl (stl g)))) = sdrop (2 + (n + 2)) g"
  unfolding stl2_sdrop sdrop_add by (simp only: add.assoc)

lemma fallback_record_fst_Inr:
  assumes "items \<noteq> []"
  shows "\<exists>r. fst (fallback_record i n d items av w) = Inr r"
  using assms
  by (simp add: fallback_record_def truediv_def Let_def uniform_def randint_def)

lemma fallback_loop_total:
  assumes "items \<noteq> []"
  shows "\<exists>out w'. fallback_loop S items ulat ulon maxd i names fs w = (Inr out, w')"
proof (induction names arbitrary: i fs w)
  case Nil
  show ?case by simp
next
  case (Cons n names)
  let ?d = "fallback_distance ulat ulon (rng w) 0"
  let ?w2 = "w\<lparr>rng := stl (stl (rng w))\<rparr>"
  let ?w3 = "w\<lparr>rng := sdrop (length items) (stl (stl (rng w)))\<rparr>"
  obtain r where "fst (fallback_record i n ?d items
      (fst (determine_available_products S n items ?w2)) ?w3) = Inr r"
    using fallback_record_fst_Inr [OF assms] by blast
  then show ?case
    unfolding fallback_loop_Cons Let_def by (simp add: Cons.IH)
qed

lemma fallback_loop_Inr:
  assumes "fallback_loop S items ulat ulon maxd i names fs w = (Inr out, w')"
  shows "\<exists>new m. out = fs @ new \<and> rng w' = sdrop m (rng w) \<and>
           requests w' = requests w \<and> ui w' = ui w \<and>
           subseq (map name new) names \<and>
           (\<forall>r\<in>set new. \<exists>k j av v.
              fallback_distance ulat ulon (rng w) k \<le> maxd \<and>
              fst (fallback_record j (name r) (fallback_distance ulat ulon (rng w) k) items av v)
                = Inr r)"
  using assms
proof (induction names arbitrary: i fs w)
  case Nil
  then have "out = fs @ [] \<and> rng w' = sdrop 0 (rng w) \<and> requests w' = requests w \<and>
      ui w' = ui w \<and> subseq (map name ([]::store_record list)) []"
    by simp
  then show ?case by (metis empty_iff list.set(1))
next
  case (Cons n names)
  let ?d = "fallback_distance ulat ulon (rng w) 0"
  let ?w2 = "w\<lparr>rng := stl (stl (rng w))\<rparr>"
  let ?w3 = "w\<lparr>rng := sdrop (length items) (stl (stl (rng w)))\<rparr>"
  let ?w4 = "w\<lparr>rng := stl (stl (sdrop (length items) (stl (stl (rng w)))))\<rparr>"
  let ?av = "fst (determine_available_products S n items ?w2)"
  show ?case
  proof (cases "?d \<le> maxd")
    case False
    with Cons.prems have rec: "fallback_loop S items ulat ulon maxd (Suc i) names fs ?w2 = (Inr out, w')"
      by (simp add: fallback_loop_Cons Let_def)
    from Cons.IH [OF rec] obtain new m where
      new: "out = fs @ new" "rng w' = sdrop m (rng ?w2)"
        "requests w' = requests ?w2" "ui w' = ui ?w2" "subseq (map name new) names"
        "\<forall>r\<in>set new. \<exists>k j av v.
              fallback_distance ulat ulon (rng ?w2) k \<le> maxd \<and>
              fst (fallback_record j (name r) (fallback_distance ulat ulon (rng ?w2) k) items av v)
                = Inr r"
      by blast
    have "rng w' = sdrop (2 + m) (rng w)"
      using new(2) by (simp add: stl2_sdrop del: sdrop.simps)
    moreover have "requests w' = requests w" "ui w' = ui w" using new(3,4) by simp_all
    moreover have "subseq (map name new) (n # names)" using new(5) by (rule list_emb_Cons)
    moreover have "\<forall>r\<in>set new. \<exists>k j av v.
              fallback_distance ulat ulon (rng w) k \<le> maxd \<and>
              fst (fallback_record j (name r) (fallback_distance ulat ulon (rng w) k) items av v)
                = Inr r"
    proof
      fix r assume "r \<in> set new"
      with new(6) obtain k j av v where
        "fallback_distance ulat ulon (sdrop 2 (rng w)) k \<le> maxd"
        "fst (fallback_record j (name r) (fallback_distance ulat ulon (sdrop 2 (rng w)) k) items av v) = Inr r"
        by (auto simp add: stl2_sdrop simp del: sdrop.simps)
      then show "\<exists>k j av v.
              fallback_distance ulat ulon (rng w) k \<le> maxd \<and>
              fst (fallback_record j (name r) (fallback_distance ulat ulon (rng w) k) items av v)
                = Inr r"
        unfolding fallback_distance_sdrop by blast
    qed
    ultimately show ?thesis using new(1) by blast
  next
    case True
    with Cons.prems obtain r where r: "fst (fallback_record i n ?d items ?av ?w3) = Inr r"
      and rec: "fallback_loop S items ulat ulon maxd (Suc i) names (fs @ [r]) ?w4 = (Inr out, w')"
      by (auto simp add: fallback_loop_Cons Let_def split: sum.splits)
    have nr: "name r = n" using fallback_record_props [OF r] by simp
    from Cons.IH [OF rec] obtain new m where
      new: "out = (fs @ [r]) @ new" "rng w' = sdrop m (rng ?w4)"
        "requests w' = requests ?w4" "ui w' = ui ?w4" "subseq (map name new) names"
        "\<forall>r\<in>set new. \<exists>k j av v.
              fallback_distance ulat ulon (rng ?w4) k \<le> maxd \<and>
              fst (fallback_record j (name r) (fallback_distance ulat ulon (rng ?w4) k) items av v)
                = Inr r"
      by blast
    have w4: "rng ?w4 = sdrop (2 + (length items + 2)) (rng w)"
      unfolding stl2_sdrop_stl2 by simp
    have "out = fs @ (r # new)" using new(1) by simp
    moreover have "rng w' = sdrop (2 + (length items + 2) + m) (rng w)"
      using new(2) unfolding w4 sdrop_add .
    moreover have "requests w' = requests w" "ui w' = ui w" using new(3,4) by simp_all
    moreover have "subseq (map name (r # new)) (n # names)" using new(5) nr by simp
    moreover have "\<forall>r\<in>set (r # new). \<exists>k j av v.
              fallback_distance ulat ulon (rng w) k \<le> maxd \<and>
              fst (fallback_record j (name r) (fallback_distance ulat ulon (rng w) k) items av v)
                = Inr r"
    proof
      fix x assume "x \<in> set (r # new)"
      then consider "x = r" | "x \<in> set new" by auto
      then show "\<exists>k j av v.
              fallback_distance ulat ulon (rng w) k \<le> maxd \<and>
              fst (fallback_record j (name x) (fallback_distance ulat ulon (rng w) k) items av v)
                = Inr x"
      proof cases
        case 1
        then show ?thesis using True r nr by blast
      next
        case 2
        with new(6) obtain k j av v where
          "fallback_distance ulat ulon (sdrop (2 + (length items + 2)) (rng w)) k \<le> maxd"
          "fst (fallback_record j (name x)
             (fallback_distance ulat ulon (sdrop (2 + (length items + 2)) (rng w)) k) items av v) = Inr x"
          unfolding w4 by blast
        then show ?thesis unfolding fallback_distance_sdrop by blast
      qed
    qed
    ultimately show ?thesis by blast
  qed
qed

subsection \<open>Haversine distance\<close>

lemma haversine_arg_bounds:
  assumes "\<bar>p1\<bar> \<le> pi / 2" "\<bar>p2\<bar> \<le> pi / 2"
  shows "(sin ((p2 - p1) / 2))\<^sup>2 \<le> (sin ((p2 - p1) / 2))\<^sup>2 + cos p1 * cos p2 * (sin y)\<^sup>2"
    and "(sin ((p2 - p1) / 2))\<^sup>2 + cos p1 * cos p2 * (sin y)\<^sup>2 \<le> 1"
proof -
  have c1: "0 \<le> cos p1" and c2: "0 \<le> cos p2"
    using assms by (auto intro!: cos_ge_zero)
  then have cc: "0 \<le> cos p1 * cos p2" by simp
  have s: "0 \<le> (sin y)\<^sup>2" "(sin y)\<^sup>2 \<le> 1"
    by (simp_all add: abs_square_le_1)
  show "(sin ((p2 - p1) / 2))\<^sup>2 \<le> (sin ((p2 - p1) / 2))\<^sup>2 + cos p1 * cos p2 * (sin y)\<^sup>2"
    using cc s(1) by simp
  have "cos p1 * cos p2 * (sin y)\<^sup>2 \<le> cos p1 * cos p2 * 1"
    using s(2) cc by (rule mult_left_mono)
  also have "cos p1 * cos p2 * 1 = (cos (p1 - p2) + cos (p1 + p2)) / 2"
    by (simp add: cos_times_cos)
  also have "\<dots> \<le> (cos (p1 - p2) + 1) / 2" by simp
  also have "cos (p1 - p2) = cos (2 * ((p2 - p1) / 2))"
  proof -
    have "2 * ((p2 - p1) / 2) = - (p1 - p2)" by simp
    then show ?thesis by (simp only: cos_minus)
  qed
  also have "\<dots> = 2 * (cos ((p2 - p1) / 2))\<^sup>2 - 1" by (rule cos_double_cos)
  finally have "cos p1 * cos p2 * (sin y)\<^sup>2 \<le> (cos ((p2 - p1) / 2))\<^sup>2" by simp
  then show "(sin ((p2 - p1) / 2))\<^sup>2 + cos p1 * cos p2 * (sin y)\<^sup>2 \<le> 1"
    using sin_cos_squared_add [of "(p2 - p1) / 2"] by linarith
qed

lemma calculate_distance_lower:
  assumes "\<bar>lat1\<bar> \<le> 90" "\<bar>lat2\<bar> \<le> 90"
  shows "6371 * (\<bar>lat2 - lat1\<bar> * pi / 180) \<le> calculate_distance lat1 lon1 lat2 lon2"
proof -
  define p1 where "p1 = radians lat1"
  define p2 where "p2 = radians lat2"
  define x where "x = (p2 - p1) / 2"
  define y where "y = (radians lon2 - radians lon1) / 2"
  define a where "a = (sin x)\<^sup>2 + cos p1 * cos p2 * (sin y)\<^sup>2"
  have b1: "\<bar>p1\<bar> \<le> pi / 2" and b2: "\<bar>p2\<bar> \<le> pi / 2"
    using assms by (simp_all add: p1_def p2_def radians_def abs_mult field_simps)
  have xb: "\<bar>x\<bar> \<le> pi / 2" using b1 b2 by (simp add: x_def)
  have lo: "(sin x)\<^sup>2 \<le> a" and hi: "a \<le> 1"
    using haversine_arg_bounds [OF b1 b2, of y] by (simp_all add: a_def x_def)
  have sabs: "sin \<bar>x\<bar> = \<bar>sin x\<bar>"
  proof (cases "0 \<le> x")
    case True
    then have "0 \<le> sin x" using xb pi_gt_zero by (intro sin_ge_zero) linarith+
    with True show ?thesis by simp
  next
    case False
    then have "0 \<le> sin (- x)" using xb pi_gt_zero by (intro sin_ge_zero) linarith+
    with False show ?thesis by simp
  qed
  have "\<bar>sin x\<bar> = sqrt ((sin x)\<^sup>2)" by simp
  also have "\<dots> \<le> sqrt a" using lo by (rule real_sqrt_le_mono)
  finally have le: "\<bar>sin x\<bar> \<le> sqrt a" .
  have sq1: "sqrt a \<le> 1" using hi by simp
  have "\<bar>x\<bar> = arcsin (sin \<bar>x\<bar>)"
    using xb by (simp add: arcsin_sin)
  also have "\<dots> \<le> arcsin (sqrt a)"
    unfolding sabs using le sq1 by (intro arcsin_le_arcsin) auto
  finally have "\<bar>x\<bar> \<le> arcsin (sqrt a)" .
  moreover have "calculate_distance lat1 lon1 lat2 lon2 = 6371 * (2 * arcsin (sqrt a))"
    by (simp add: calculate_distance_def Let_def a_def x_def y_def p1_def p2_def)
  moreover have "\<bar>lat2 - lat1\<bar> * pi / 180 = 2 * \<bar>x\<bar>"
  proof -
    have xeq: "x = (lat2 - lat1) * (pi / 360)"
      by (simp add: x_def p1_def p2_def radians_def field_simps)
    have "\<bar>x\<bar> = \<bar>lat2 - lat1\<bar> * \<bar>pi / 360\<bar>"
      unfolding xeq by (rule abs_mult)
    also have "\<bar>pi / 360\<bar> = pi / 360" by simp
    finally show ?thesis by simp
  qed
  ultimately show ?thesis by simp
qed

lemma calculate_distance_commute:
  "calculate_distance lat1 lon1 lat2 lon2 = calculate_distance lat2 lon2 lat1 lon1"
proof -
  have sq: "(sin ((q - p) / 2))\<^sup>2 = (sin ((p - q) / 2))\<^sup>2" for p q :: real
  proof -
    have "(q - p) / 2 = - ((p - q) / 2)" by (simp add: diff_divide_distrib)
    then show ?thesis by (simp only: sin_minus power2_minus)
  qed
  show ?thesis
    by (simp add: calculate_distance_def Let_def sq [of "radians lat1"] sq [of "radians lon1"]
          mult.commute)
qed

lemma calculate_distance_self: "calculate_distance lat lon lat lon = 0"
  by (simp add: calculate_distance_def)

subsection \<open>Place search\<close>

lemma search_places_text_eq:
  "search_places_text self nt query location w =
     (text_results nt (api_key self) query, issue (TextReq query (api_key self)) w)"
  by (simp add: search_places_text_def text_results_def Let_def
        split: response.splits option.splits)

lemma text_results_failed: "text_failed (places_json nt (TextReq query key)) \<Longrightarrow> text_results nt key query = []"
  by (auto simp add: text_failed_def text_results_def split: response.splits)

lemma fetch_places_few:
  assumes "geocode_location (ShoppingFinder key) nt location w = ((user_lat, user_lon), w1)"
      and "search_places_nearby (ShoppingFinder key) nt user_lat user_lon (max_distance_km * 1000)
             ''supermarket'' w1 = (nearby, w2)"
      and "length nearby < 3"
  shows "fetch_places (ShoppingFinder key) nt location max_distance_km w =
           (((user_lat, user_lon),
             nearby @ text_results nt key (''Esselunga '' @ location)
                    @ text_results nt key (''Conad '' @ location)
                    @ text_results nt key (''Coop '' @ location)),
            w2\<lparr>requests := requests w2 @
                  [TextReq (''Esselunga '' @ location) key,
                   TextReq (''Conad '' @ location) key,
                   TextReq (''Coop '' @ location) key]\<rparr>)"
proof -
  have k: "api_key (ShoppingFinder key) = key"
    and t: "take 3 (common_stores (ShoppingFinder key)) = [''Esselunga'', ''Conad'', ''Coop'']"
    by (simp_all add: ShoppingFinder_def)
  show ?thesis
    unfolding fetch_places_def assms(1) t
    using assms(3)
    by (simp add: assms(2) search_places_text_eq k text_query_def issue_def)
qed

lemma search_places_text_failed:
  assumes "text_failed (places_json nt (TextReq query (api_key self)))"
  shows "search_places_text self nt query loc v = ([], issue (TextReq query (api_key self)) v)"
  by (simp add: search_places_text_eq text_results_failed [OF assms])

subsection \<open>The search\<close>

lemma aggregate_loop_records:
  assumes "aggregate_loop S items ulat ulon maxd places [] {} w = (Inr live, w')"
      and "r \<in> set live"
  shows "record_invariant items r \<and>
         (\<exists>p\<in>set places. place.name p = name r \<and> place_distance ulat ulon p \<le> maxd \<and>
            distance_km r = py_round (place_distance ulat ulon p) 1)"
proof -
  from aggregate_loop_Inr [OF assms(1)] assms(2) obtain p av where
    p: "p \<in> set places" "place_distance ulat ulon p \<le> maxd"
       "live_record S p (place.name p) (place_distance ulat ulon p) items av = Inr r"
    by auto
  from live_record_props [OF p(3)] p(1,2) show ?thesis by auto
qed

lemma get_fallback_stores_records:
  assumes "get_fallback_stores self S items location ulat ulon maxd w = (Inr fb, w')"
  shows "subseq (map name fb) (take 6 (common_stores self)) \<and>
         (\<forall>r\<in>set fb. record_invariant items r \<and>
            (\<exists>k. fallback_distance ulat ulon (rng w) k \<le> maxd \<and>
                 distance_km r = py_round (fallback_distance ulat ulon (rng w) k) 1))"
proof -
  from assms have "fallback_loop S items ulat ulon maxd 0 (take 6 (common_stores self)) [] w
      = (Inr fb, w')"
    by (simp add: get_fallback_stores_def)
  from fallback_loop_Inr [OF this] obtain new where
    new: "fb = [] @ new" "subseq (map name new) (take 6 (common_stores self))"
      "\<forall>r\<in>set new. \<exists>k j av v.
              fallback_distance ulat ulon (rng w) k \<le> maxd \<and>
              fst (fallback_record j (name r) (fallback_distance ulat ulon (rng w) k) items av v)
                = Inr r"
    by blast
  have "\<forall>r\<in>set fb. record_invariant items r \<and>
            (\<exists>k. fallback_distance ulat ulon (rng w) k \<le> maxd \<and>
                 distance_km r = py_round (fallback_distance ulat ulon (rng w) k) 1)"
  proof
    fix r assume "r \<in> set fb"
    with new(1,3) obtain k j av v where
      k: "fallback_distance ulat ulon (rng w) k \<le> maxd"
         "fst (fallback_record j (name r) (fallback_distance ulat ulon (rng w) k) items av v) = Inr r"
      by auto
    from fallback_record_props [OF k(2)] k(1)
    show "record_invariant items r \<and>
            (\<exists>k. fallback_distance ulat ulon (rng w) k \<le> maxd \<and>
                 distance_km r = py_round (fallback_distance ulat ulon (rng w) k) 1)"
      by blast
  qed
  with new(1,2) show ?thesis by simp
qed

lemma get_fallback_stores_total:
  assumes "items \<noteq> []"
  shows "\<exists>fb w'. get_fallback_stores self S items location ulat ulon maxd w = (Inr fb, w')"
  unfolding get_fallback_stores_def by (rule fallback_loop_total [OF assms])

lemma aggregate_eq:
  assumes "aggregate_loop S items ulat ulon maxd places [] {} w = (Inr live, w1)"
  shows "aggregate self S items location maxd (ulat, ulon) places w =
           (if length live < 3 then
              (case get_fallback_stores self S items location ulat ulon maxd w1 of
                 (Inl e, w2) \<Rightarrow> (Inl e, w2)
               | (Inr fb, w2) \<Rightarrow> (Inr (live @ fb), w2))
            else (Inr live, w1))"
  by (simp add: aggregate_def assms)

lemma aggregate_Inr:
  assumes "aggregate self S items location maxd (ulat, ulon) places w = (Inr stores, w')"
  shows "\<exists>live w1 fb. aggregate_loop S items ulat ulon maxd places [] {} w = (Inr live, w1) \<and>
           stores = live @ fb \<and>
           (if length live < 3
            then get_fallback_stores self S items location ulat ulon maxd w1 = (Inr fb, w')
            else fb = [] \<and> w' = w1)"
proof -
  obtain res w1 where l: "aggregate_loop S items ulat ulon maxd places [] {} w = (res, w1)"
    by (cases "aggregate_loop S items ulat ulon maxd places [] {} w")
  with assms obtain live where live: "res = Inr live"
    by (cases res) (simp_all add: aggregate_def)
  show ?thesis
  proof (cases "length live < 3")
    case False
    with assms l live show ?thesis by (simp add: aggregate_eq)
  next
    case True
    obtain fres w2 where f: "get_fallback_stores self S items location ulat ulon maxd w1 = (fres, w2)"
      by (cases "get_fallback_stores self S items location ulat ulon maxd w1")
    with assms l live True obtain fb where "fres = Inr fb" "stores = live @ fb" "w' = w2"
      by (cases fres) (simp_all add: aggregate_eq)
    with l live True f show ?thesis by simp
  qed
qed

lemma aggregate_total:
  assumes "items \<noteq> []"
  shows "\<exists>stores w'. aggregate self S items location maxd (ulat, ulon) places w = (Inr stores, w')"
proof -
  obtain live w1 where l: "aggregate_loop S items ulat ulon maxd places [] {} w = (Inr live, w1)"
    using aggregate_loop_total [OF assms] by blast
  obtain fb w2 where "get_fallback_stores self S items location ulat ulon maxd w1 = (Inr fb, w2)"
    using get_fallback_stores_total [OF assms] by blast
  then show ?thesis by (simp add: aggregate_eq [OF l])
qed

lemma search_stores_eq:
  assumes "fetch_places self nt location maxd w = ((user, places), w1)"
  shows "search_stores self S nt items location maxd w =
           aggregate self S items location maxd user places w1"
  by (simp add: search_stores_def assms)

lemma fallback_loop_all_near:
  assumes "items \<noteq> []"
      and "\<forall>k. fallback_distance ulat ulon (rng w) k \<le> maxd"
  shows "\<exists>out w'. fallback_loop S items ulat ulon maxd i names fs w = (Inr out, w') \<and>
           map name out = map name fs @ names"
  using assms(2)
proof (induction names arbitrary: i fs w)
  case Nil
  show ?case by simp
next
  case (Cons n names)
  let ?d = "fallback_distance ulat ulon (rng w) 0"
  let ?w2 = "w\<lparr>rng := stl (stl (rng w))\<rparr>"
  let ?w3 = "w\<lparr>rng := sdrop (length items) (stl (stl (rng w)))\<rparr>"
  let ?w4 = "w\<lparr>rng := stl (stl (sdrop (length items) (stl (stl (rng w)))))\<rparr>"
  let ?av = "fst (determine_available_products S n items ?w2)"
  obtain r where r: "fst (fallback_record i n ?d items ?av ?w3) = Inr r"
    using fallback_record_fst_Inr [OF assms(1)] by blast
  have nr: "name r = n" using fallback_record_props [OF r] by simp
  have near: "?d \<le> maxd" using Cons.prems by blast
  have "rng ?w4 = sdrop (2 + (length items + 2)) (rng w)"
    unfolding stl2_sdrop_stl2 by simp
  then have "\<forall>k. fallback_distance ulat ulon (rng ?w4) k \<le> maxd"
    using Cons.prems by (simp only: fallback_distance_sdrop) blast
  from Cons.IH [OF this, of "Suc i" "fs @ [r]"] obtain out w' where
    "fallback_loop S items ulat ulon maxd (Suc i) names (fs @ [r]) ?w4 = (Inr out, w')"
    "map name out = map name (fs @ [r]) @ names"
    by blast
  then show ?case
    using near r nr by (simp add: fallback_loop_Cons Let_def)
qed

lemma fallback_loop_all_far:
  assumes "\<forall>k. \<not> fallback_distance ulat ulon (rng w) k \<le> maxd"
  shows "fallback_loop S items ulat ulon maxd i names fs w =
           (Inr fs, w\<lparr>rng := sdrop (2 * length names) (rng w)\<rparr>)"
  using assms
proof (induction names arbitrary: i w)
  case Nil
  show ?case by simp
next
  case (Cons n names)
  let ?w2 = "w\<lparr>rng := stl (stl (rng w))\<rparr>"
  have far: "\<not> fallback_distance ulat ulon (rng w) 0 \<le> maxd" using Cons.prems by blast
  have "rng ?w2 = sdrop 2 (rng w)" by (simp add: stl2_sdrop del: sdrop.simps)
  then have "\<forall>k. \<not> fallback_distance ulat ulon (rng ?w2) k \<le> maxd"
    using Cons.prems by (simp only: fallback_distance_sdrop) blast
  from Cons.IH [OF this, of "Suc i"] far show ?case
    by (simp add: fallback_loop_Cons Let_def)
qed

lemma aggregate_loop_empty_items:
  "aggregate_loop S [] ulat ulon maxd places stores processed w =
     (if \<exists>p\<in>set places. place.name p \<notin> processed \<and>
            find (\<lambda>q. place.name q = place.name p) places = Some p \<and>
            place_distance ulat ulon p \<le> maxd
      then (Inl ZeroDivisionError, w) else (Inr stores, w))"
proof (induction places arbitrary: processed)
  case Nil
  show ?case by simp
next
  case (Cons plc places)
  have w: "w\<lparr>rng := rng w\<rparr> = w" by simp
  show ?case
  proof (cases "place.name plc \<in> processed")
    case True
    have *: "find (\<lambda>q. place.name q = place.name p) (plc # places) =
             find (\<lambda>q. place.name q = place.name p) places"
      if "place.name p \<notin> processed" for p
      using True that by auto
    have "(\<exists>p\<in>set (plc # places). place.name p \<notin> processed \<and>
            find (\<lambda>q. place.name q = place.name p) (plc # places) = Some p \<and>
            place_distance ulat ulon p \<le> maxd) =
          (\<exists>p\<in>set places. place.name p \<notin> processed \<and>
            find (\<lambda>q. place.name q = place.name p) places = Some p \<and>
            place_distance ulat ulon p \<le> maxd)"
      using True by (auto simp add: * simp del: find.simps)
    with True show ?thesis
      unfolding aggregate_loop_Cons Cons.IH by (simp del: find.simps)
  next
    case False
    show ?thesis
    proof (cases "place_distance ulat ulon plc \<le> maxd")
      case True
      with False show ?thesis
        unfolding aggregate_loop_Cons by (auto simp add: live_record_Inl)
    next
      case far: False
      have "(\<exists>p\<in>set (plc # places). place.name p \<notin> processed \<and>
              find (\<lambda>q. place.name q = place.name p) (plc # places) = Some p \<and>
              place_distance ulat ulon p \<le> maxd) =
            (\<exists>p\<in>set places. place.name p \<notin> insert (place.name plc) processed \<and>
              find (\<lambda>q. place.name q = place.name p) places = Some p \<and>
              place_distance ulat ulon p \<le> maxd)" (is "?L = ?R")
      proof
        assume ?L
        then obtain p where p: "p \<in> set (plc # places)" "place.name p \<notin> processed"
          "find (\<lambda>q. place.name q = place.name p) (plc # places) = Some p"
          "place_distance ulat ulon p \<le> maxd"
          by blast
        have ne: "place.name plc \<noteq> place.name p"
        proof
          assume "place.name plc = place.name p"
          with p(3) have "p = plc" by simp
          with p(4) far show False by simp
        qed
        with p have "p \<in> set places" "place.name p \<notin> insert (place.name plc) processed"
          "find (\<lambda>q. place.name q = place.name p) places = Some p"
          by auto
        with p(4) show ?R by blast
      next
        assume ?R
        then obtain p where p: "p \<in> set places"
          "place.name p \<notin> insert (place.name plc) processed"
          "find (\<lambda>q. place.name q = place.name p) places = Some p"
          "place_distance ulat ulon p \<le> maxd"
          by blast
        then have "p \<in> set (plc # places)" "place.name p \<notin> processed"
          "find (\<lambda>q. place.name q = place.name p) (plc # places) = Some p"
          by auto
        with p(4) show ?L by blast
      qed
      with False far show ?thesis
        unfolding aggregate_loop_Cons Cons.IH by (simp del: find.simps)
    qed
  qed
qed

lemma fallback_loop_empty_items:
  "fst (fallback_loop S [] ulat ulon maxd i names fs w) =
     (if \<exists>j<length names. fallback_distance ulat ulon (rng w) (2 * j) \<le> maxd
      then Inl ZeroDivisionError else Inr fs)"
proof (induction names arbitrary: i w)
  case Nil
  show ?case by simp
next
  case (Cons n names)
  let ?w2 = "w\<lparr>rng := stl (stl (rng w))\<rparr>"
  have r2: "rng ?w2 = sdrop 2 (rng w)" by (simp add: stl2_sdrop del: sdrop.simps)
  have shift: "(\<exists>j<length names. fallback_distance ulat ulon (rng ?w2) (2 * j) \<le> maxd) =
        (\<exists>j<length names. fallback_distance ulat ulon (rng w) (2 * Suc j) \<le> maxd)"
    unfolding r2 fallback_distance_sdrop by simp
  show ?case
  proof (cases "fallback_distance ulat ulon (rng w) 0 \<le> maxd")
    case True
    then have "\<exists>j<length (n # names). fallback_distance ulat ulon (rng w) (2 * j) \<le> maxd"
      by (intro exI [of _ 0]) simp
    with True show ?thesis
      by (simp add: fallback_loop_Cons Let_def fallback_record_Inl del: length_Cons)
  next
    case False
    have "(\<exists>j<length (n # names). fallback_distance ulat ulon (rng w) (2 * j) \<le> maxd) =
        (\<exists>j<length names. fallback_distance ulat ulon (rng w) (2 * Suc j) \<le> maxd)"
    proof
      assume "\<exists>j<length (n # names). fallback_distance ulat ulon (rng w) (2 * j) \<le> maxd"
      then obtain j where j: "j < length (n # names)" "fallback_distance ulat ulon (rng w) (2 * j) \<le> maxd"
        by blast
      with False have "j \<noteq> 0" by (auto intro: ccontr)
      then obtain j' where "j = Suc j'" by (cases j) auto
      with j show "\<exists>j<length names. fallback_distance ulat ulon (rng w) (2 * Suc j) \<le> maxd"
        by auto
    next
      assume "\<exists>j<length names. fallback_distance ulat ulon (rng w) (2 * Suc j) \<le> maxd"
      then obtain j where "j < length names" "fallback_distance ulat ulon (rng w) (2 * Suc j) \<le> maxd"
        by blast
      then have "Suc j < length (n # names) \<and> fallback_distance ulat ulon (rng w) (2 * Suc j) \<le> maxd"
        by simp
      then show "\<exists>j<length (n # names). fallback_distance ulat ulon (rng w) (2 * j) \<le> maxd"
        by blast
    qed
    with False Cons.IH [of "Suc i" ?w2] shift show ?thesis
      by (simp add: fallback_loop_Cons Let_def del: length_Cons)
  qed
qed

subsection \<open>Concrete runs\<close>

lemma sdrop_sconst: "sdrop m (sconst c) = sconst c"
  by (induction m) simp_all

lemma snth_sconst: "sconst c !! k = c"
  by (induction k) simp_all

lemma near_distance: "place_distance 45.698 9.677 esselunga_near = 0"
  by (simp add: place_distance_def esselunga_near_def calculate_distance_self)

lemma far_distance: "\<not> place_distance 45.698 9.677 esselunga_far \<le> 3"
proof -
  have "6371 * (\<bar>45.46 - 45.698\<bar> * pi / 180) \<le> calculate_distance 45.698 9.677 45.46 9.19"
    by (rule calculate_distance_lower) simp_all
  moreover have "(3::real) < 6371 * (\<bar>45.46 - 45.698\<bar> * pi / 180)"
    using pi_ge_two by simp
  ultimately show ?thesis
    by (simp add: place_distance_def esselunga_far_def)
qed

lemma fallback_distance_half: "fallback_distance ulat ulon (sconst (1 / 2)) k = 0"
  unfolding fallback_distance_def perturbed_def snth_sconst uniform_value_half
  by (simp add: calculate_distance_self)

lemma fallback_distance_zero:
  assumes "\<bar>ulat\<bar> \<le> 89"
  shows "\<not> fallback_distance ulat ulon (sconst 0) k \<le> 3"
proof -
  define d :: real where "d = 7205759403792794 / 2 ^ 57"
  have d: "0 < d" "d \<le> 1" "3 < 6371 * (d * 2 / 180)"
    by (simp_all add: d_def)
  have "6371 * (\<bar>(ulat + - d) - ulat\<bar> * pi / 180)
          \<le> calculate_distance ulat ulon (ulat + - d) (ulon + - d)"
    using assms d(1,2) by (intro calculate_distance_lower) auto
  moreover have "6371 * (d * 2 / 180) \<le> 6371 * (\<bar>(ulat + - d) - ulat\<bar> * pi / 180)"
    using pi_ge_two d(1) by (simp add: mult_left_mono)
  ultimately have "3 < calculate_distance ulat ulon (ulat + - d) (ulon + - d)"
    using d(3) by linarith
  then show ?thesis
    unfolding fallback_distance_def perturbed_def snth_sconst uniform_value_zero d_def
    by simp
qed

lemma fetch_places_net_of:
  assumes "length ps < 3"
  shows "fetch_places (ShoppingFinder key) (net_of ps) location maxd w =
           (((45.698, 9.677), ps), fetched key location maxd w)"
proof -
  have k: "api_key (ShoppingFinder key) = key" by (simp add: ShoppingFinder_def)
  have g: "geocode_location (ShoppingFinder key) (net_of ps) location w =
             ((45.698, 9.677), issue (GeocodeReq location key) w)"
    by (simp add: geocode_location_def net_of_def k Let_def)
  have n: "search_places_nearby (ShoppingFinder key) (net_of ps) 45.698 9.677 (maxd * 1000)
             ''supermarket'' (issue (GeocodeReq location key) w) =
           (ps, issue (NearbyReq (45.698, 9.677) (maxd * 1000) ''grocery_or_supermarket''
                    ''supermarket'' key) (issue (GeocodeReq location key) w))"
    by (simp add: search_places_nearby_def net_of_def k Let_def)
  have t: "text_results (net_of ps) key q = []" for q
    by (simp add: text_results_def net_of_def)
  show ?thesis
    unfolding fetch_places_few [OF g n assms]
    by (simp add: t issue_def fetched_def)
qed

lemma rng_fetched: "rng (fetched key location maxd w) = rng w"
  by (simp add: fetched_def)

lemma aggregate_loop_single:
  assumes "items \<noteq> []" and "place_distance ulat ulon p \<le> maxd"
  shows "\<exists>r. aggregate_loop S items ulat ulon maxd [p] [] {} w =
               (Inr [r], w\<lparr>rng := sdrop (length items) (rng w)\<rparr>) \<and>
             name r = place.name p"
proof -
  obtain r where r: "live_record S p (place.name p) (place_distance ulat ulon p) items
      (fst (determine_available_products S (place.name p) items w)) = Inr r"
    "name r = place.name p"
    using live_record_Inr [OF assms(1)] by blast
  with assms(2) show ?thesis
    by (simp add: aggregate_loop_Cons)
qed

lemma six_names:
  "take 6 (common_stores (ShoppingFinder key)) =
     [''Esselunga'', ''Conad'', ''Coop'', ''Carrefour'', ''Lidl'', ''Eurospin'']"
  by (simp add: ShoppingFinder_def)

lemma run_near:
  "\<exists>r fb w'. search_stores (ShoppingFinder ''key'') ascii_str (net_of [esselunga_near])
             [''pasta''] ''Bergamo'' 3 (world_of (sconst (1 / 2))) = (Inr (r # fb), w') \<and>
     aggregate_loop ascii_str [''pasta''] 45.698 9.677 3 [esselunga_near] [] {}
       (fetched ''key'' ''Bergamo'' 3 (world_of (sconst (1 / 2)))) =
       (Inr [r], fetched ''key'' ''Bergamo'' 3 (world_of (sconst (1 / 2)))) \<and>
     get_fallback_stores (ShoppingFinder ''key'') ascii_str [''pasta''] ''Bergamo'' 45.698 9.677 3
       (fetched ''key'' ''Bergamo'' 3 (world_of (sconst (1 / 2)))) = (Inr fb, w') \<and>
     name r = ''Esselunga'' \<and>
     map name fb = [''Esselunga'', ''Conad'', ''Coop'', ''Carrefour'', ''Lidl'', ''Eurospin'']"
proof -
  define w1 where "w1 = fetched ''key'' ''Bergamo'' 3 (world_of (sconst (1 / 2)))"
  have f: "fetch_places (ShoppingFinder ''key'') (net_of [esselunga_near]) ''Bergamo'' 3
      (world_of (sconst (1 / 2))) = (((45.698, 9.677), [esselunga_near]), w1)"
    unfolding w1_def by (rule fetch_places_net_of) simp
  have g: "rng w1 = sconst (1 / 2)"
    unfolding w1_def rng_fetched by (simp add: world_of_def)
  have w: "w1\<lparr>rng := sconst (1 / 2)\<rparr> = w1"
    using g by (metis world.update_convs(1) world.surjective)
  have ne: "[''pasta''] \<noteq> []" by simp
  have nd: "place_distance 45.698 9.677 esselunga_near \<le> 3" unfolding near_distance by simp
  have w1': "w1\<lparr>rng := sdrop (length [''pasta'']) (rng w1)\<rparr> = w1"
    unfolding g sdrop_sconst by (rule w)
  from aggregate_loop_single [OF ne nd, of ascii_str w1] obtain r where
    r: "aggregate_loop ascii_str [''pasta''] 45.698 9.677 3 [esselunga_near] [] {} w1
       = (Inr [r], w1)" "name r = ''Esselunga''"
    unfolding w1' by (auto simp add: esselunga_near_def)
  have "\<forall>k. fallback_distance 45.698 9.677 (rng w1) k \<le> 3"
    unfolding g fallback_distance_half by simp
  from fallback_loop_all_near [OF ne this, of ascii_str 0
      "take 6 (common_stores (ShoppingFinder ''key''))" "[]"]
  obtain fb w' where fb: "get_fallback_stores (ShoppingFinder ''key'') ascii_str [''pasta'']
      ''Bergamo'' 45.698 9.677 3 w1 = (Inr fb, w')"
    "map name fb = [''Esselunga'', ''Conad'', ''Coop'', ''Carrefour'', ''Lidl'', ''Eurospin'']"
    unfolding get_fallback_stores_def six_names by auto
  have s: "search_stores (ShoppingFinder ''key'') ascii_str (net_of [esselunga_near])
             [''pasta''] ''Bergamo'' 3 (world_of (sconst (1 / 2))) = (Inr (r # fb), w')"
    unfolding search_stores_eq [OF f] aggregate_eq [OF r(1)] fb(1) by simp
  show ?thesis
    unfolding w1_def [symmetric] using s r(1) fb(1) r(2) fb(2) by (intro exI conjI)
qed

lemma geocode_net_of:
  "geocode_location (ShoppingFinder key) (net_of ps) location w =
     ((45.698, 9.677), issue (GeocodeReq location key) w)"
  by (simp add: geocode_location_def net_of_def ShoppingFinder_def Let_def)

lemma nearby_net_of:
  "search_places_nearby (ShoppingFinder key) (net_of ps) lat lng radius keyword w =
     (ps, issue (NearbyReq (lat, lng) radius ''grocery_or_supermarket'' keyword key) w)"
  by (simp add: search_places_nearby_def net_of_def ShoppingFinder_def Let_def)

lemma text_failed_net_of: "text_failed (places_json (net_of ps) (TextReq query key))"
  by (simp add: text_failed_def net_of_def)

lemma aggregate_loop_far_then_same:
  assumes "\<not> place_distance ulat ulon p \<le> maxd" and "place.name q = place.name p"
  shows "aggregate_loop S items ulat ulon maxd [p, q] [] {} w = (Inr [], w)"
  by (simp add: aggregate_loop_Cons assms)

lemma run_all_far:
  assumes "aggregate_loop ascii_str items 45.698 9.677 3 ps [] {}
             (fetched ''key'' ''Bergamo'' 3 (world_of (sconst 0)))
           = (Inr [], fetched ''key'' ''Bergamo'' 3 (world_of (sconst 0)))"
      and "length ps < 3"
  shows "fst (search_stores (ShoppingFinder ''key'') ascii_str (net_of ps) items ''Bergamo'' 3
               (world_of (sconst 0))) = Inr []"
proof -
  define w1 where "w1 = fetched ''key'' ''Bergamo'' 3 (world_of (sconst 0))"
  have f: "fetch_places (ShoppingFinder ''key'') (net_of ps) ''Bergamo'' 3
      (world_of (sconst 0)) = (((45.698, 9.677), ps), w1)"
    unfolding w1_def using assms(2) by (rule fetch_places_net_of)
  have g: "rng w1 = sconst 0"
    unfolding w1_def rng_fetched by (simp add: world_of_def)
  have b: "\<bar>45.698 :: real\<bar> \<le> 89" by simp
  have "\<forall>k. \<not> fallback_distance 45.698 9.677 (rng w1) k \<le> 3"
    unfolding g using fallback_distance_zero [OF b] by blast
  then have fb: "get_fallback_stores (ShoppingFinder ''key'') ascii_str items ''Bergamo''
      45.698 9.677 3 w1 =
      (Inr [], w1\<lparr>rng := sdrop (2 * length (take 6 (common_stores (ShoppingFinder ''key''))))
                              (rng w1)\<rparr>)"
    unfolding get_fallback_stores_def by (rule fallback_loop_all_far)
  have a: "aggregate_loop ascii_str items 45.698 9.677 3 ps [] {} w1 = (Inr [], w1)"
    unfolding w1_def by (rule assms(1))
  show ?thesis
    unfolding search_stores_eq [OF f] aggregate_eq [OF a] fb by simp
qed

lemma get_fallback_stores_Inl:
  assumes "get_fallback_stores self S items location ulat ulon maxd w = (Inl e, w')"
  shows "items = []"
proof (rule ccontr)
  assume "items \<noteq> []"
  from get_fallback_stores_total [OF this, of self S location ulat ulon maxd w] assms
  show False by auto
qed

lemma aggregate_empty_items:
  assumes "(\<exists>p\<in>set places. find (\<lambda>q. place.name q = place.name p) places = Some p \<and>
              place_distance ulat ulon p \<le> maxd) \<or>
           (\<exists>j<length (take 6 (common_stores self)).
              fallback_distance ulat ulon (rng w) (2 * j) \<le> maxd)"
  shows "fst (aggregate self S [] location maxd (ulat, ulon) places w) = Inl ZeroDivisionError"
proof (cases "\<exists>p\<in>set places. place.name p \<notin> {} \<and>
            find (\<lambda>q. place.name q = place.name p) places = Some p \<and>
            place_distance ulat ulon p \<le> maxd")
  case True
  then have "aggregate_loop S [] ulat ulon maxd places [] {} w = (Inl ZeroDivisionError, w)"
    unfolding aggregate_loop_empty_items by (rule if_P)
  then show ?thesis by (simp add: aggregate_def)
next
  case False
  then have a: "aggregate_loop S [] ulat ulon maxd places [] {} w = (Inr [], w)"
    unfolding aggregate_loop_empty_items by (rule if_not_P)
  from False assms have "\<exists>j<length (take 6 (common_stores self)).
              fallback_distance ulat ulon (rng w) (2 * j) \<le> maxd"
    by auto
  then have "fst (get_fallback_stores self S [] location ulat ulon maxd w) = Inl ZeroDivisionError"
    unfolding get_fallback_stores_def fallback_loop_empty_items by (rule if_P)
  then obtain w' where "get_fallback_stores self S [] location ulat ulon maxd w
      = (Inl ZeroDivisionError, w')"
    by (metis prod.collapse)
  then show ?thesis unfolding aggregate_eq [OF a] by simp
qed

subsection \<open>The names kept by the fallback generator\<close>

lemma fallback_loop_names:
  assumes "fallback_loop S items ulat ulon maxd i names fs w = (Inr out, w')"
  shows "map name out = map name fs @ fallback_names (length items) ulat ulon maxd (rng w) names"
  using assms
proof (induction names arbitrary: i fs w)
  case Nil
  then show ?case by simp
next
  case (Cons n names)
  let ?d = "fallback_distance ulat ulon (rng w) 0"
  let ?w2 = "w\<lparr>rng := stl (stl (rng w))\<rparr>"
  let ?w3 = "w\<lparr>rng := sdrop (length items) (stl (stl (rng w)))\<rparr>"
  let ?w4 = "w\<lparr>rng := stl (stl (sdrop (length items) (stl (stl (rng w)))))\<rparr>"
  let ?av = "fst (determine_available_products S n items ?w2)"
  show ?case
  proof (cases "?d \<le> maxd")
    case False
    with Cons.prems have rec: "fallback_loop S items ulat ulon maxd (Suc i) names fs ?w2 = (Inr out, w')"
      by (simp add: fallback_loop_Cons Let_def)
    have g: "rng ?w2 = sdrop 2 (rng w)" by (simp add: stl2_sdrop del: sdrop.simps)
    from Cons.IH [OF rec] False show ?thesis
      unfolding g by (simp del: sdrop.simps)
  next
    case True
    with Cons.prems obtain r where r: "fst (fallback_record i n ?d items ?av ?w3) = Inr r"
      and rec: "fallback_loop S items ulat ulon maxd (Suc i) names (fs @ [r]) ?w4 = (Inr out, w')"
      by (auto simp add: fallback_loop_Cons Let_def split: sum.splits)
    have nr: "name r = n" using fallback_record_props [OF r] by simp
    have g: "rng ?w4 = sdrop (2 + (length items + 2)) (rng w)"
      unfolding stl2_sdrop_stl2 by simp
    from Cons.IH [OF rec] True nr show ?thesis
      unfolding g by (simp del: sdrop.simps)
  qed
qed

lemma get_fallback_stores_names:
  assumes "get_fallback_stores self S items location ulat ulon maxd w = (Inr fb, w')"
  shows "map name fb =
           fallback_names (length items) ulat ulon maxd (rng w) (take 6 (common_stores self))"
  using fallback_loop_names [of S items ulat ulon maxd 0 "take 6 (common_stores self)" "[]" w fb w']
    assms by (simp add: get_fallback_stores_def)

subsection \<open>Haversine distance along a meridian and along the equator\<close>

lemma arcsin_abs_sin:
  assumes "\<bar>x\<bar> \<le> pi / 2"
  shows "arcsin \<bar>sin x\<bar> = \<bar>x\<bar>"
proof -
  have "sin \<bar>x\<bar> = \<bar>sin x\<bar>"
  proof (cases "0 \<le> x")
    case True
    then have "0 \<le> sin x" using assms pi_gt_zero by (intro sin_ge_zero) linarith+
    with True show ?thesis by simp
  next
    case False
    then have "0 \<le> sin (- x)" using assms pi_gt_zero by (intro sin_ge_zero) linarith+
    with False show ?thesis by simp
  qed
  then have "arcsin \<bar>sin x\<bar> = arcsin (sin \<bar>x\<bar>)" by simp
  also have "\<dots> = \<bar>x\<bar>" using assms by (simp add: arcsin_sin)
  finally show ?thesis .
qed

lemma half_radians_diff:
  "(radians b - radians a) / 2 = (b - a) * (pi / 360)"
  by (simp add: radians_def field_simps)

lemma abs_half_radians_diff:
  "\<bar>(radians b - radians a) / 2\<bar> = \<bar>b - a\<bar> * (pi / 360)"
proof -
  have "\<bar>(b - a) * (pi / 360)\<bar> = \<bar>b - a\<bar> * \<bar>pi / 360\<bar>" by (rule abs_mult)
  also have "\<bar>pi / 360\<bar> = pi / 360" by simp
  finally show ?thesis unfolding half_radians_diff .
qed

lemma calculate_distance_meridian:
  assumes "\<bar>lat2 - lat1\<bar> \<le> 180"
  shows "calculate_distance lat1 lon lat2 lon = 6371 * (\<bar>lat2 - lat1\<bar> * pi / 180)"
proof -
  define x where "x = (radians lat2 - radians lat1) / 2"
  have ax: "\<bar>x\<bar> = \<bar>lat2 - lat1\<bar> * (pi / 360)"
    unfolding x_def by (rule abs_half_radians_diff)
  have "\<bar>lat2 - lat1\<bar> * (pi / 360) \<le> 180 * (pi / 360)"
    using assms by (intro mult_right_mono) simp_all
  then have xb: "\<bar>x\<bar> \<le> pi / 2" unfolding ax by simp
  have "calculate_distance lat1 lon lat2 lon = 6371 * (2 * arcsin (sqrt ((sin x)\<^sup>2)))"
    by (simp add: calculate_distance_def Let_def x_def)
  also have "sqrt ((sin x)\<^sup>2) = \<bar>sin x\<bar>" by simp
  also have "arcsin \<bar>sin x\<bar> = \<bar>x\<bar>" using xb by (rule arcsin_abs_sin)
  finally show ?thesis unfolding ax by simp
qed

lemma calculate_distance_equator:
  assumes "\<bar>lon2 - lon1\<bar> \<le> 180"
  shows "calculate_distance 0 lon1 0 lon2 = 6371 * (\<bar>lon2 - lon1\<bar> * pi / 180)"
proof -
  define y where "y = (radians lon2 - radians lon1) / 2"
  have ay: "\<bar>y\<bar> = \<bar>lon2 - lon1\<bar> * (pi / 360)"
    unfolding y_def by (rule abs_half_radians_diff)
  have "\<bar>lon2 - lon1\<bar> * (pi / 360) \<le> 180 * (pi / 360)"
    using assms by (intro mult_right_mono) simp_all
  then have yb: "\<bar>y\<bar> \<le> pi / 2" unfolding ay by simp
  have "calculate_distance 0 lon1 0 lon2 = 6371 * (2 * arcsin (sqrt ((sin y)\<^sup>2)))"
    by (simp add: calculate_distance_def Let_def y_def radians_def)
  also have "sqrt ((sin y)\<^sup>2) = \<bar>sin y\<bar>" by simp
  also have "arcsin \<bar>sin y\<bar> = \<bar>y\<bar>" using yb by (rule arcsin_abs_sin)
  finally show ?thesis unfolding ay by simp
qed

lemma calculate_distance_formula:
  "calculate_distance lat1 lon1 lat2 lon2 =
     6371 * (2 * arcsin (sqrt ((sin ((radians lat2 - radians lat1) / 2))\<^sup>2 +
        cos (radians lat1) * cos (radians lat2) * (sin ((radians lon2 - radians lon1) / 2))\<^sup>2)))"
  by (simp add: calculate_distance_def Let_def)

subsection \<open>Evaluation on concrete inputs\<close>

lemma str_lower_ascii_example: "str_lower ascii_str ''Esselunga Bio'' = ''esselunga bio''"
  by code_simp

lemma str_of_nat_example: "str_of_nat 5 = ''5''"
  by code_simp

text \<open>
  The percentage is rounded from the double product: for 23 of 80 items the quotient times
  100 is the double below 28.75 and the percentage is 28.7, where the exact quotient
  would give the tie 28.75 and 28.8. For 1 of 16 the product is the tie 6.25 itself.
\<close>

lemma percentage_examples:
  "py_round (double_of (double_of (23 / 80) * 100)) 1 = double_of 28.7"
  "py_round (double_of (double_of (1 / 16) * 100)) 1 = double_of 6.2"
  "py_round (double_of (double_of (1 / 1) * 100)) 1 = double_of 100"
proof -
  have q: "double_of (23 / 80) = 5179139571476070 / 2 ^ 54"
    by (subst double_of_small [where n = 2]) (simp_all add: round_half_even_def Let_def)
  have p: "double_of (5179139571476070 / 2 ^ 54 * 100) = 8092405580431359 / 2 ^ 48"
    by (subst double_of_large [where n = 4]) (simp_all add: round_half_even_def Let_def)
  show "py_round (double_of (double_of (23 / 80) * 100)) 1 = double_of 28.7"
    unfolding q p by (simp add: py_round_def round_half_even_def Let_def)
  have q: "double_of (1 / 16) = 1 / 16"
    by (subst double_of_small [where n = 4]) (simp_all add: round_half_even_def Let_def)
  have p: "double_of (1 / 16 * 100) = 25 / 4"
    by (subst double_of_large [where n = 2]) (simp_all add: round_half_even_def Let_def)
  show "py_round (double_of (double_of (1 / 16) * 100)) 1 = double_of 6.2"
    unfolding q p by (simp add: py_round_def round_half_even_def Let_def)
  have q: "double_of (1 / 1) = 1"
    by (subst double_of_large [where n = 0]) (simp_all add: round_half_even_def Let_def)
  have p: "double_of (1 * 100) = 100"
    by (subst double_of_large [where n = 6]) (simp_all add: round_half_even_def Let_def)
  show "py_round (double_of (double_of (1 / 1) * 100)) 1 = double_of 100"
    unfolding q p by (simp add: py_round_def round_half_even_def Let_def)
qed

text \<open>
  The rating is rounded from the double that \<open>uniform(3.8, 4.6)\<close> returns: at the sample
  3/16 that is the double below 3.95, and the rating is 3.9.
\<close>

lemma rating_example:
  "py_round (uniform_value (double_of 3.8) (double_of 4.6) (3 / 16)) 1 = double_of 3.9"
proof -
  have lo: "double_of 3.8 = 8556839292003942 / 2 ^ 51"
    by (subst double_of_large [where n = 1]) (simp_all add: round_half_even_def Let_def)
  have hi: "double_of 4.6 = 5179139571476070 / 2 ^ 50"
    by (subst double_of_large [where n = 2]) (simp_all add: round_half_even_def Let_def)
  define sc :: real where "sc = double_of (5179139571476070 / 2 ^ 50 - 8556839292003942 / 2 ^ 51)"
  define pr :: real where "pr = double_of (sc * (3 / 16))"
  define sm :: real where "sm = double_of (8556839292003942 / 2 ^ 51 + pr)"
  have sc: "sc = 7205759403792792 / 2 ^ 53"
    unfolding sc_def
    by (subst double_of_small [where n = 1]) (simp_all add: round_half_even_def Let_def)
  have pr: "pr = 5404319552844594 / 2 ^ 55"
    unfolding pr_def sc
    by (subst double_of_small [where n = 3]) (simp_all add: round_half_even_def Let_def)
  have sm: "sm = 8894609264056729 / 2 ^ 51"
    unfolding sm_def pr
    by (subst double_of_large [where n = 1]) (simp_all add: round_half_even_def Let_def)
  have u: "uniform_value (double_of 3.8) (double_of 4.6) (3 / 16) = sm"
    unfolding uniform_value_def lo hi sm_def pr_def sc_def ..
  show ?thesis
    unfolding u sm by (simp add: py_round_def round_half_even_def Let_def)
qed

text \<open>
  A store matching only \<open>fresco\<close> is an organic/specialty store (0.8); for an item with a
  dietary keyword the inner test reads the two organic keywords only, and the
  probability is 0.4.
\<close>

lemma item_prob_examples:
  "item_prob ''esselunga'' ''pasta'' = 0.75"
  "item_prob ''lidl'' ''latte'' = 0.6"
  "item_prob ''conad'' ''pasta'' = 0.7"
  "item_prob ''fresco market'' ''pasta'' = 0.8"
  "item_prob ''fresco market'' ''pane integrale'' = 0.4"
  "item_prob (''naturas'' @ [CHR 0xC3, CHR 0xAC]) ''latte vegano'' = 0.9"
  by (simp_all add: item_prob_def any_in_def)

lemma determine_available_products_example:
  "determine_available_products ascii_str ''Lidl'' [''pasta'', ''latte bio'', ''pane'']
     (world_of (0.5 ## 0.3 ## 0.65 ## sconst 0)) =
   ([''pasta'', ''latte bio''], world_of (sconst 0))"
  by (simp add: determine_available_products_def random_def item_prob_def any_in_def
        ascii_str_def ascii_lower_char_def world_of_def char_of_def bit_Suc_0_iff)

section \<open>The claims\<close>

subsection \<open>C1: the invariant of a store record\<close>

text \<open>
  C1. For a non-empty list of items, \<open>search_stores\<close> returns a list of records (it does
  not raise), and so does the fallback generator on its own; every record of either
  list satisfies the invariant: matched plus missing items is the total, the total is the
  length of the item list, \<open>has_all_products\<close> holds exactly when the matched count is
  the total, and the match percentage is \<open>round(matched / total * 100, 1)\<close>.
\<close>

theorem store_record_invariant:
  assumes "items \<noteq> []"
  shows "(\<exists>stores w'. search_stores self S nt items location max_distance_km w = (Inr stores, w') \<and>
            (\<forall>r\<in>set stores. record_invariant items r)) \<and>
         (\<exists>fb w'. get_fallback_stores self S items location user_lat user_lon max_distance_km v
                     = (Inr fb, w') \<and>
            (\<forall>r\<in>set fb. record_invariant items r))"
proof
  obtain ulat ulon places w1 where
    f: "fetch_places self nt location max_distance_km w = (((ulat, ulon), places), w1)"
    by (metis prod.exhaust)
  obtain stores w' where
    a: "aggregate self S items location max_distance_km (ulat, ulon) places w1 = (Inr stores, w')"
    using aggregate_total [OF assms] by blast
  from aggregate_Inr [OF a] obtain live w2 fb where
    l: "aggregate_loop S items ulat ulon max_distance_km places [] {} w1 = (Inr live, w2)"
       "stores = live @ fb"
       "if length live < 3
        then get_fallback_stores self S items location ulat ulon max_distance_km w2 = (Inr fb, w')
        else fb = [] \<and> w' = w2"
    by blast
  have "\<forall>r\<in>set live. record_invariant items r"
    using aggregate_loop_records [OF l(1)] by blast
  moreover have "\<forall>r\<in>set fb. record_invariant items r"
  proof (cases "length live < 3")
    case True
    with l(3) have "get_fallback_stores self S items location ulat ulon max_distance_km w2 = (Inr fb, w')"
      by simp
    from get_fallback_stores_records [OF this] show ?thesis by blast
  next
    case False
    with l(3) show ?thesis by simp
  qed
  ultimately have "\<forall>r\<in>set stores. record_invariant items r"
    using l(2) by auto
  with a show "\<exists>stores w'. search_stores self S nt items location max_distance_km w = (Inr stores, w') \<and>
            (\<forall>r\<in>set stores. record_invariant items r)"
    by (auto simp add: search_stores_eq [OF f])
next
  obtain fb w' where
    g: "get_fallback_stores self S items location user_lat user_lon max_distance_km v = (Inr fb, w')"
    using get_fallback_stores_total [OF assms] by blast
  from get_fallback_stores_records [OF g] g
  show "\<exists>fb w'. get_fallback_stores self S items location user_lat user_lon max_distance_km v
                     = (Inr fb, w') \<and>
            (\<forall>r\<in>set fb. record_invariant items r)"
    by blast
qed

theorem store_record_invariant_witness:
  "[''pasta''] \<noteq> [] \<and>
   (\<exists>stores w'. search_stores (ShoppingFinder ''key'') ascii_str (net_of [esselunga_near])
        [''pasta''] ''Bergamo'' 3 (world_of (sconst (1 / 2))) = (Inr stores, w') \<and>
      length stores = 7 \<and> (\<forall>r\<in>set stores. record_invariant [''pasta''] r)) \<and>
   (\<exists>fb w'. get_fallback_stores (ShoppingFinder ''key'') ascii_str [''pasta''] ''Bergamo''
        45.698 9.677 3 (world_of (sconst (1 / 2))) = (Inr fb, w') \<and>
      (\<forall>r\<in>set fb. record_invariant [''pasta''] r))"
proof -
  have ne: "[''pasta''] \<noteq> []" by simp
  note t = store_record_invariant [OF ne, where self = "ShoppingFinder ''key''" and S = ascii_str
      and nt = "net_of [esselunga_near]" and location = "''Bergamo''" and max_distance_km = 3
      and w = "world_of (sconst (1 / 2))" and user_lat = "45.698" and user_lon = "9.677"
      and v = "world_of (sconst (1 / 2))"]
  from t obtain stores w' where
    s: "search_stores (ShoppingFinder ''key'') ascii_str (net_of [esselunga_near])
        [''pasta''] ''Bergamo'' 3 (world_of (sconst (1 / 2))) = (Inr stores, w')"
       "\<forall>r\<in>set stores. record_invariant [''pasta''] r"
    by (elim exE conjE) (rule that)
  from run_near obtain r fb w2 where
    n: "search_stores (ShoppingFinder ''key'') ascii_str (net_of [esselunga_near])
        [''pasta''] ''Bergamo'' 3 (world_of (sconst (1 / 2))) = (Inr (r # fb), w2)"
       "map name fb = [''Esselunga'', ''Conad'', ''Coop'', ''Carrefour'', ''Lidl'', ''Eurospin'']"
    by (elim exE conjE) (rule that)
  from n(2) have "length (map name fb) = 6" by simp
  then have "length (r # fb) = 7" by simp
  moreover have "stores = r # fb" using s(1) n(1) by simp
  ultimately have "length stores = 7" by simp
  with s have "\<exists>stores w'. search_stores (ShoppingFinder ''key'') ascii_str (net_of [esselunga_near])
        [''pasta''] ''Bergamo'' 3 (world_of (sconst (1 / 2))) = (Inr stores, w') \<and>
      length stores = 7 \<and> (\<forall>r\<in>set stores. record_invariant [''pasta''] r)"
    by (intro exI conjI)
  with ne t show ?thesis by (intro conjI) (elim conjE, assumption)+
qed

subsection \<open>C2: distance filtering\<close>

text \<open>
  C2. Every record returned by \<open>search_stores\<close> was assembled for a location within
  \<open>max_distance_km\<close> of the origin: a live record for a place of the place list with its
  name, a fallback record for one of the first six chain names at a location perturbed
  from the origin by two consecutive samples. Its \<open>distance_km\<close> is that distance rounded.
\<close>

theorem search_stores_within_distance:
  assumes "fetch_places self nt location max_distance_km w = (((user_lat, user_lon), places), w1)"
      and "search_stores self S nt items location max_distance_km w = (Inr stores, w')"
      and "r \<in> set stores"
  shows "(\<exists>p\<in>set places. place.name p = name r \<and>
            place_distance user_lat user_lon p \<le> max_distance_km \<and>
            distance_km r = py_round (place_distance user_lat user_lon p) 1) \<or>
         (\<exists>g k. name r \<in> set (take 6 (common_stores self)) \<and>
            (\<exists>m. g = sdrop m (rng w1)) \<and>
            fallback_distance user_lat user_lon g k \<le> max_distance_km \<and>
            distance_km r = py_round (fallback_distance user_lat user_lon g k) 1)"
proof -
  from assms(2) have
    a: "aggregate self S items location max_distance_km (user_lat, user_lon) places w1 = (Inr stores, w')"
    by (simp add: search_stores_eq [OF assms(1)])
  from aggregate_Inr [OF a] obtain live w2 fb where
    l: "aggregate_loop S items user_lat user_lon max_distance_km places [] {} w1 = (Inr live, w2)"
       "stores = live @ fb"
       "if length live < 3
        then get_fallback_stores self S items location user_lat user_lon max_distance_km w2 = (Inr fb, w')
        else fb = [] \<and> w' = w2"
    by blast
  from assms(3) l(2) consider "r \<in> set live" | "r \<in> set fb" by auto
  then show ?thesis
  proof cases
    case 1
    from aggregate_loop_records [OF l(1) 1]
    have "\<exists>p\<in>set places. place.name p = name r \<and>
            place_distance user_lat user_lon p \<le> max_distance_km \<and>
            distance_km r = py_round (place_distance user_lat user_lon p) 1"
      by (rule conjunct2)
    then show ?thesis by (rule disjI1)
  next
    case 2
    then have "fb \<noteq> []" by auto
    with l(3) have g: "get_fallback_stores self S items location user_lat user_lon max_distance_km w2 = (Inr fb, w')"
      by (simp split: if_splits)
    from aggregate_loop_Inr [OF l(1)] obtain m where m: "rng w2 = sdrop m (rng w1)" by blast
    from get_fallback_stores_records [OF g]
    have sub: "subseq (map name fb) (take 6 (common_stores self))"
      and all: "\<forall>r\<in>set fb. record_invariant items r \<and>
            (\<exists>k. fallback_distance user_lat user_lon (rng w2) k \<le> max_distance_km \<and>
                 distance_km r = py_round (fallback_distance user_lat user_lon (rng w2) k) 1)"
      by simp_all
    from all 2 obtain k where
      k: "fallback_distance user_lat user_lon (rng w2) k \<le> max_distance_km"
         "distance_km r = py_round (fallback_distance user_lat user_lon (rng w2) k) 1"
      by auto
    have "name r \<in> set (map name fb)" using 2 by simp
    from list_emb_set [OF sub this] have n: "name r \<in> set (take 6 (common_stores self))"
      by auto
    have "\<exists>m. rng w2 = sdrop m (rng w1)" using m by (rule exI)
    with n k have "name r \<in> set (take 6 (common_stores self)) \<and>
            (\<exists>m. rng w2 = sdrop m (rng w1)) \<and>
            fallback_distance user_lat user_lon (rng w2) k \<le> max_distance_km \<and>
            distance_km r = py_round (fallback_distance user_lat user_lon (rng w2) k) 1"
      by simp
    then have "\<exists>g k. name r \<in> set (take 6 (common_stores self)) \<and>
            (\<exists>m. g = sdrop m (rng w1)) \<and>
            fallback_distance user_lat user_lon g k \<le> max_distance_km \<and>
            distance_km r = py_round (fallback_distance user_lat user_lon g k) 1"
      by (intro exI)
    then show ?thesis by (rule disjI2)
  qed
qed

theorem search_stores_within_distance_witness:
  "\<exists>stores w' r.
     fetch_places (ShoppingFinder ''key'') (net_of [esselunga_near]) ''Bergamo'' 3
       (world_of (sconst (1 / 2))) =
       (((45.698, 9.677), [esselunga_near]), fetched ''key'' ''Bergamo'' 3 (world_of (sconst (1 / 2)))) \<and>
     search_stores (ShoppingFinder ''key'') ascii_str (net_of [esselunga_near])
        [''pasta''] ''Bergamo'' 3 (world_of (sconst (1 / 2))) = (Inr stores, w') \<and>
     r \<in> set stores \<and>
     ((\<exists>p\<in>set [esselunga_near]. place.name p = name r \<and>
            place_distance 45.698 9.677 p \<le> 3 \<and>
            distance_km r = py_round (place_distance 45.698 9.677 p) 1) \<or>
      (\<exists>g k. name r \<in> set (take 6 (common_stores (ShoppingFinder ''key''))) \<and>
            (\<exists>m. g = sdrop m (rng (fetched ''key'' ''Bergamo'' 3 (world_of (sconst (1 / 2)))))) \<and>
            fallback_distance 45.698 9.677 g k \<le> 3 \<and>
            distance_km r = py_round (fallback_distance 45.698 9.677 g k) 1))"
proof -
  have f: "fetch_places (ShoppingFinder ''key'') (net_of [esselunga_near]) ''Bergamo'' 3
       (world_of (sconst (1 / 2))) =
       (((45.698, 9.677), [esselunga_near]), fetched ''key'' ''Bergamo'' 3 (world_of (sconst (1 / 2))))"
    by (rule fetch_places_net_of) simp
  from run_near obtain r fb w' where
    n: "search_stores (ShoppingFinder ''key'') ascii_str (net_of [esselunga_near])
        [''pasta''] ''Bergamo'' 3 (world_of (sconst (1 / 2))) = (Inr (r # fb), w')"
    by (elim exE conjE) (rule that)
  have m: "r \<in> set (r # fb)" by simp
  from f n m search_stores_within_distance [OF f n m] show ?thesis
    by (intro exI conjI)
qed

subsection \<open>C3: deduplication by name\<close>

text \<open>
  C3 as stated fails when the first place with the name is out of range: its name is
  marked processed before the distance test, so a later place with the same name is
  skipped as well and no record carries the name. Here the first Esselunga is about 46 km
  away and the second at the origin, with radius 3.
\<close>

theorem dedup_exactly_one_counterexample:
  "place.name esselunga_far = ''Esselunga'' \<and>
   place.name esselunga_near = ''Esselunga'' \<and>
   aggregate_loop ascii_str [''pasta''] 45.698 9.677 3 [esselunga_far, esselunga_near] [] {}
     (world_of (sconst (1 / 2))) = (Inr [], world_of (sconst (1 / 2)))"
proof -
  have f: "place.name esselunga_far = ''Esselunga''"
    by (simp add: esselunga_far_def)
  have n: "place.name esselunga_near = ''Esselunga''"
    by (simp add: esselunga_near_def)
  have e: "place.name esselunga_near = place.name esselunga_far"
    unfolding f n by (rule refl)
  have "aggregate_loop ascii_str [''pasta''] 45.698 9.677 3 [esselunga_far, esselunga_near] [] {}
     (world_of (sconst (1 / 2))) = (Inr [], world_of (sconst (1 / 2)))"
    using far_distance e by (rule aggregate_loop_far_then_same)
  with f n show ?thesis by (intro conjI)
qed

text \<open>
  C3, amended. For a non-empty item list the aggregation loop returns, and for every name
  its output holds at most one record: exactly one when the first place of the list with
  that name is within \<open>max_distance_km\<close> of the origin, none when that place is farther
  away or no place has the name. Later places with the name are skipped.
\<close>

theorem aggregate_loop_one_per_name:
  assumes "items \<noteq> []"
  shows "\<exists>stores w'.
           aggregate_loop S items user_lat user_lon max_distance_km places [] {} w = (Inr stores, w') \<and>
           length (filter (\<lambda>r. name r = n) stores) =
             (case find (\<lambda>p. place.name p = n) places of
                None \<Rightarrow> 0
              | Some p \<Rightarrow> if place_distance user_lat user_lon p \<le> max_distance_km then 1 else 0)"
proof -
  obtain stores w' where
    a: "aggregate_loop S items user_lat user_lon max_distance_km places [] {} w = (Inr stores, w')"
    using aggregate_loop_total [OF assms] by blast
  from aggregate_loop_count [OF a, of n] a show ?thesis by simp
qed

theorem aggregate_loop_one_per_name_witness:
  "[''pasta''] \<noteq> [] \<and>
   length (filter (\<lambda>p. place.name p = ''Esselunga'') [esselunga_near, esselunga_far]) = 2 \<and>
   (\<exists>stores w'.
      aggregate_loop ascii_str [''pasta''] 45.698 9.677 3 [esselunga_near, esselunga_far] [] {}
        (world_of (sconst (1 / 2))) = (Inr stores, w') \<and>
      length (filter (\<lambda>r. name r = ''Esselunga'') stores) = 1)"
proof -
  have ne: "[''pasta''] \<noteq> []" by simp
  have c: "length (filter (\<lambda>p. place.name p = ''Esselunga'') [esselunga_near, esselunga_far]) = 2"
    by (simp add: esselunga_near_def esselunga_far_def)
  have fd: "find (\<lambda>p. place.name p = ''Esselunga'') [esselunga_near, esselunga_far] = Some esselunga_near"
    by (simp add: esselunga_near_def)
  have nd: "place_distance 45.698 9.677 esselunga_near \<le> 3" unfolding near_distance by simp
  from aggregate_loop_one_per_name [OF ne, of ascii_str "45.698" "9.677" 3
      "[esselunga_near, esselunga_far]" "world_of (sconst (1 / 2))" "''Esselunga''"]
  have "\<exists>stores w'.
      aggregate_loop ascii_str [''pasta''] 45.698 9.677 3 [esselunga_near, esselunga_far] [] {}
        (world_of (sconst (1 / 2))) = (Inr stores, w') \<and>
      length (filter (\<lambda>r. name r = ''Esselunga'') stores) = 1"
    unfolding fd option.case if_P [OF nd] .
  with ne c show ?thesis by (intro conjI)
qed

subsection \<open>C4: the fallback trigger\<close>

text \<open>
  C4. When fewer than 3 stores leave the aggregation loop, the result of \<open>search_stores\<close>
  is those stores followed by the output of the fallback generator (or the exception
  the generator raises, which needs an empty item list). The generator returns one
  record for each of the first six chain names whose generated location is within
  range, in the order of the list and no other: at most 6 records. The total may stay
  below 3: with no live place, radius 3 and all samples 0 the result is empty.
\<close>

theorem fallback_appended:
  assumes "fetch_places self nt location max_distance_km w = (((user_lat, user_lon), places), w1)"
      and "aggregate_loop S items user_lat user_lon max_distance_km places [] {} w1 = (Inr live, w2)"
      and "length live < 3"
  shows "(\<exists>res w3.
            get_fallback_stores self S items location user_lat user_lon max_distance_km w2 = (res, w3) \<and>
            (case res of
               Inl e \<Rightarrow> items = [] \<and>
                 search_stores self S nt items location max_distance_km w = (Inl e, w3)
             | Inr fb \<Rightarrow>
                 search_stores self S nt items location max_distance_km w = (Inr (live @ fb), w3) \<and>
                 map name fb =
                   fallback_names (length items) user_lat user_lon max_distance_km (rng w2)
                     (take 6 (common_stores self)) \<and>
                 length fb \<le> 6 \<and> subseq (map name fb) (take 6 (common_stores self)))) \<and>
         fst (search_stores (ShoppingFinder ''key'') ascii_str (net_of []) [''pasta''] ''Bergamo'' 3
               (world_of (sconst 0))) = Inr []"
proof
  obtain res w3 where
    g: "get_fallback_stores self S items location user_lat user_lon max_distance_km w2 = (res, w3)"
    by (cases "get_fallback_stores self S items location user_lat user_lon max_distance_km w2")
  have s: "search_stores self S nt items location max_distance_km w =
      (case res of Inl e \<Rightarrow> (Inl e, w3) | Inr fb \<Rightarrow> (Inr (live @ fb), w3))"
    unfolding search_stores_eq [OF assms(1)] aggregate_eq [OF assms(2)] g
    using assms(3) by (simp split: sum.splits)
  have "case res of
               Inl e \<Rightarrow> items = [] \<and>
                 search_stores self S nt items location max_distance_km w = (Inl e, w3)
             | Inr fb \<Rightarrow>
                 search_stores self S nt items location max_distance_km w = (Inr (live @ fb), w3) \<and>
                 map name fb =
                   fallback_names (length items) user_lat user_lon max_distance_km (rng w2)
                     (take 6 (common_stores self)) \<and>
                 length fb \<le> 6 \<and> subseq (map name fb) (take 6 (common_stores self))"
  proof (cases res)
    case (Inl e)
    with g s get_fallback_stores_Inl show ?thesis by auto
  next
    case (Inr fb)
    with g have gf: "get_fallback_stores self S items location user_lat user_lon max_distance_km w2
        = (Inr fb, w3)"
      by simp
    have sub: "subseq (map name fb) (take 6 (common_stores self))"
      using get_fallback_stores_records [OF gf] by blast
    from sub have "length (map name fb) \<le> length (take 6 (common_stores self))"
      by (rule list_emb_length)
    then have len: "length fb \<le> 6" by simp
    note nm = get_fallback_stores_names [OF gf]
    from Inr s have "search_stores self S nt items location max_distance_km w = (Inr (live @ fb), w3)"
      by simp
    with nm len sub show ?thesis unfolding Inr by simp
  qed
  with g show "\<exists>res w3.
            get_fallback_stores self S items location user_lat user_lon max_distance_km w2 = (res, w3) \<and>
            (case res of
               Inl e \<Rightarrow> items = [] \<and>
                 search_stores self S nt items location max_distance_km w = (Inl e, w3)
             | Inr fb \<Rightarrow>
                 search_stores self S nt items location max_distance_km w = (Inr (live @ fb), w3) \<and>
                 map name fb =
                   fallback_names (length items) user_lat user_lon max_distance_km (rng w2)
                     (take 6 (common_stores self)) \<and>
                 length fb \<le> 6 \<and> subseq (map name fb) (take 6 (common_stores self)))"
    by blast
next
  show "fst (search_stores (ShoppingFinder ''key'') ascii_str (net_of []) [''pasta''] ''Bergamo'' 3
               (world_of (sconst 0))) = Inr []"
    by (rule run_all_far) simp_all
qed

theorem fallback_appended_witness:
  "\<exists>live fb w3.
     fetch_places (ShoppingFinder ''key'') (net_of [esselunga_near]) ''Bergamo'' 3
       (world_of (sconst (1 / 2))) =
       (((45.698, 9.677), [esselunga_near]), fetched ''key'' ''Bergamo'' 3 (world_of (sconst (1 / 2)))) \<and>
     aggregate_loop ascii_str [''pasta''] 45.698 9.677 3 [esselunga_near] [] {}
       (fetched ''key'' ''Bergamo'' 3 (world_of (sconst (1 / 2)))) =
       (Inr live, fetched ''key'' ''Bergamo'' 3 (world_of (sconst (1 / 2)))) \<and>
     length live < 3 \<and>
     search_stores (ShoppingFinder ''key'') ascii_str (net_of [esselunga_near])
        [''pasta''] ''Bergamo'' 3 (world_of (sconst (1 / 2))) = (Inr (live @ fb), w3) \<and>
     map name fb =
       fallback_names (length [''pasta'']) 45.698 9.677 3
         (rng (fetched ''key'' ''Bergamo'' 3 (world_of (sconst (1 / 2)))))
         (take 6 (common_stores (ShoppingFinder ''key''))) \<and>
     map name fb = [''Esselunga'', ''Conad'', ''Coop'', ''Carrefour'', ''Lidl'', ''Eurospin''] \<and>
     length live = 1 \<and> length fb = 6 \<and>
     subseq (map name fb) (take 6 (common_stores (ShoppingFinder ''key'')))"
proof -
  have f: "fetch_places (ShoppingFinder ''key'') (net_of [esselunga_near]) ''Bergamo'' 3
       (world_of (sconst (1 / 2))) =
       (((45.698, 9.677), [esselunga_near]), fetched ''key'' ''Bergamo'' 3 (world_of (sconst (1 / 2))))"
    by (rule fetch_places_net_of) simp
  from run_near obtain r fb w' where
    a: "aggregate_loop ascii_str [''pasta''] 45.698 9.677 3 [esselunga_near] [] {}
       (fetched ''key'' ''Bergamo'' 3 (world_of (sconst (1 / 2)))) =
       (Inr [r], fetched ''key'' ''Bergamo'' 3 (world_of (sconst (1 / 2))))"
    and g: "get_fallback_stores (ShoppingFinder ''key'') ascii_str [''pasta''] ''Bergamo'' 45.698 9.677 3
       (fetched ''key'' ''Bergamo'' 3 (world_of (sconst (1 / 2)))) = (Inr fb, w')"
    and n: "map name fb = [''Esselunga'', ''Conad'', ''Coop'', ''Carrefour'', ''Lidl'', ''Eurospin'']"
    by (elim exE conjE) (rule that)
  have l: "length [r] < 3" by simp
  have l1: "length [r] = 1" by simp
  from n have "length (map name fb) = 6" by simp
  then have l6: "length fb = 6" by simp
  from fallback_appended [OF f a l] obtain res w3 where
    h: "get_fallback_stores (ShoppingFinder ''key'') ascii_str [''pasta''] ''Bergamo'' 45.698 9.677 3
          (fetched ''key'' ''Bergamo'' 3 (world_of (sconst (1 / 2)))) = (res, w3)"
       "case res of
               Inl e \<Rightarrow> [''pasta''] = [] \<and>
                 search_stores (ShoppingFinder ''key'') ascii_str (net_of [esselunga_near])
                   [''pasta''] ''Bergamo'' 3 (world_of (sconst (1 / 2))) = (Inl e, w3)
             | Inr fb \<Rightarrow>
                 search_stores (ShoppingFinder ''key'') ascii_str (net_of [esselunga_near])
                   [''pasta''] ''Bergamo'' 3 (world_of (sconst (1 / 2))) = (Inr ([r] @ fb), w3) \<and>
                 map name fb =
                   fallback_names (length [''pasta'']) 45.698 9.677 3
                     (rng (fetched ''key'' ''Bergamo'' 3 (world_of (sconst (1 / 2)))))
                     (take 6 (common_stores (ShoppingFinder ''key''))) \<and>
                 length fb \<le> 6 \<and> subseq (map name fb) (take 6 (common_stores (ShoppingFinder ''key'')))"
    by (elim exE conjE) (rule that)
  from h(1) g have res: "res = Inr fb" by simp
  note h2 = h(2) [unfolded res sum.case]
  note s1 = h2 [THEN conjunct1]
  note s2 = h2 [THEN conjunct2, THEN conjunct1]
  note s3 = h2 [THEN conjunct2, THEN conjunct2, THEN conjunct2]
  from f a l s1 s2 n l1 l6 s3 show ?thesis by (intro exI conjI)
qed

subsection \<open>C5: the availability estimator\<close>

text \<open>
  C5. With the draws taken from the input stream, the estimator keeps exactly the items
  whose draw is below the probability of the specification (0.6 discount, else 0.8
  organic/specialty, else 0.75 large chain, else 0.7; an item with an organic/dietary
  keyword overrides it to 0.9 in a store matching the organic keywords and 0.4
  otherwise), in the order of the list, and consumes one draw per item.
\<close>

theorem determine_available_products_spec:
  "determine_available_products S store_name items w =
     (spec_available S store_name items (stake (length items) (rng w)),
      w\<lparr>rng := sdrop (length items) (rng w)\<rparr>)"
  by (simp add: determine_available_products_def determine_loop_spec spec_available_def)

subsection \<open>C6: geocoding failure\<close>

text \<open>
  C6. When the geocoding call raises, or answers with a status other than \<open>OK\<close> or with
  an empty results array, \<open>geocode_location\<close> returns the fixed coordinate
  (45.698, 9.677) and shows one message; no exception leaves the function.
\<close>

theorem geocode_location_fallback:
  assumes "geocode_failed (geocode_json nt (GeocodeReq location (api_key self)))"
  shows "fst (geocode_location self nt location w) = (45.698, 9.677) \<and>
         (\<exists>m. ui (snd (geocode_location self nt location w)) = ui w @ [m])"
  using assms
  by (auto simp add: geocode_failed_def geocode_location_def geocode_except_def geocode_else_def
        st_error_def st_warning_def issue_def Let_def
        split: response.splits option.splits list.splits sum.splits)

theorem geocode_location_fallback_witness:
  "geocode_failed (geocode_json net_down (GeocodeReq ''Bergamo'' (api_key (ShoppingFinder ''key'')))) \<and>
   fst (geocode_location (ShoppingFinder ''key'') net_down ''Bergamo'' (world_of (sconst 0)))
     = (45.698, 9.677) \<and>
   geocode_failed (geocode_json (net_of []) (GeocodeReq ''Bergamo'' (api_key (ShoppingFinder ''key'')))) = False"
  using geocode_location_fallback [of net_down "''Bergamo''" "ShoppingFinder ''key''" "world_of (sconst 0)"]
  by (simp add: geocode_failed_def net_down_def net_of_def)

subsection \<open>C7: the Haversine distance\<close>

text \<open>
  C7. The distance is the Haversine formula with Earth radius 6371 km on the coordinates
  in degrees: it is symmetric in its two coordinates, 0 from a coordinate to itself, and
  along a meridian or along the equator it is 6371 times the angle in radians (about
  111.19 km per degree). It is a function of its four arguments only.
\<close>

theorem calculate_distance_symmetric:
  "calculate_distance lat1 lon1 lat2 lon2 = calculate_distance lat2 lon2 lat1 lon1 \<and>
   calculate_distance lat1 lon1 lat1 lon1 = 0 \<and>
   calculate_distance lat1 lon1 lat2 lon2 =
     6371 * (2 * arcsin (sqrt ((sin ((radians lat2 - radians lat1) / 2))\<^sup>2 +
        cos (radians lat1) * cos (radians lat2) * (sin ((radians lon2 - radians lon1) / 2))\<^sup>2))) \<and>
   (\<bar>lat2 - lat1\<bar> \<le> 180 \<longrightarrow>
      calculate_distance lat1 lon1 lat2 lon1 = 6371 * (\<bar>lat2 - lat1\<bar> * pi / 180)) \<and>
   (\<bar>lon2 - lon1\<bar> \<le> 180 \<longrightarrow>
      calculate_distance 0 lon1 0 lon2 = 6371 * (\<bar>lon2 - lon1\<bar> * pi / 180))"
  using calculate_distance_commute [of lat1 lon1 lat2 lon2] calculate_distance_self [of lat1 lon1]
    calculate_distance_formula [of lat1 lon1 lat2 lon2]
    calculate_distance_meridian [of lat2 lat1 lon1] calculate_distance_equator [of lon2 lon1]
  by (intro conjI impI)

theorem calculate_distance_symmetric_witness:
  "\<bar>46 - 45\<bar> \<le> (180 :: real) \<and>
   calculate_distance 45 9 46 9 = 6371 * (\<bar>46 - 45\<bar> * pi / 180) \<and>
   \<bar>10 - 9\<bar> \<le> (180 :: real) \<and>
   calculate_distance 0 9 0 10 = 6371 * (\<bar>10 - 9\<bar> * pi / 180) \<and>
   calculate_distance 45 9 46 10 = calculate_distance 46 10 45 9"
proof -
  note t = calculate_distance_symmetric [of 45 9 46 10]
  have a: "\<bar>46 - 45\<bar> \<le> (180 :: real)" by simp
  have b: "\<bar>10 - 9\<bar> \<le> (180 :: real)" by simp
  note s = t [THEN conjunct1]
  note m = t [THEN conjunct2, THEN conjunct2, THEN conjunct2, THEN conjunct1, rule_format, OF a]
  note e = t [THEN conjunct2, THEN conjunct2, THEN conjunct2, THEN conjunct2, rule_format, OF b]
  from a m b e s show ?thesis by (intro conjI)
qed

subsection \<open>C8: text searches\<close>

text \<open>
  C8. When the nearby search returns fewer than 3 places, the search issues one text
  search for each of the first three chain names, \<open>name location\<close>, in order, and
  appends what each contributes, without removing duplicates; a text search whose request
  raises or whose status is not \<open>OK\<close> contributes the empty list and raises nothing.
\<close>

theorem fetch_places_text_search:
  assumes "geocode_location (ShoppingFinder key) nt location w = ((user_lat, user_lon), w1)"
      and "search_places_nearby (ShoppingFinder key) nt user_lat user_lon (max_distance_km * 1000)
             ''supermarket'' w1 = (nearby, w2)"
      and "length nearby < 3"
  shows "fetch_places (ShoppingFinder key) nt location max_distance_km w =
           (((user_lat, user_lon),
             nearby @ text_results nt key (''Esselunga '' @ location)
                    @ text_results nt key (''Conad '' @ location)
                    @ text_results nt key (''Coop '' @ location)),
            w2\<lparr>requests := requests w2 @
                  [TextReq (''Esselunga '' @ location) key,
                   TextReq (''Conad '' @ location) key,
                   TextReq (''Coop '' @ location) key]\<rparr>) \<and>
         (\<forall>query loc v. text_failed (places_json nt (TextReq query key)) \<longrightarrow>
            search_places_text (ShoppingFinder key) nt query loc v =
              ([], issue (TextReq query key) v))"
proof -
  have k: "api_key (ShoppingFinder key) = key"
    by (simp add: ShoppingFinder_def)
  show ?thesis
    using fetch_places_few [OF assms] search_places_text_failed [of nt _ "ShoppingFinder key"]
    by (simp add: k)
qed

theorem fetch_places_text_search_witness:
  "geocode_location (ShoppingFinder ''key'') (net_of [esselunga_near]) ''Bergamo'' (world_of (sconst 0))
     = ((45.698, 9.677), issue (GeocodeReq ''Bergamo'' ''key'') (world_of (sconst 0))) \<and>
   search_places_nearby (ShoppingFinder ''key'') (net_of [esselunga_near]) 45.698 9.677 (3 * 1000)
     ''supermarket'' (issue (GeocodeReq ''Bergamo'' ''key'') (world_of (sconst 0)))
     = ([esselunga_near],
        issue (NearbyReq (45.698, 9.677) (3 * 1000) ''grocery_or_supermarket'' ''supermarket'' ''key'')
          (issue (GeocodeReq ''Bergamo'' ''key'') (world_of (sconst 0)))) \<and>
   length [esselunga_near] < 3 \<and>
   fst (fetch_places (ShoppingFinder ''key'') (net_of [esselunga_near]) ''Bergamo'' 3
          (world_of (sconst 0))) =
     ((45.698, 9.677),
      [esselunga_near] @ text_results (net_of [esselunga_near]) ''key'' (''Esselunga '' @ ''Bergamo'')
         @ text_results (net_of [esselunga_near]) ''key'' (''Conad '' @ ''Bergamo'')
         @ text_results (net_of [esselunga_near]) ''key'' (''Coop '' @ ''Bergamo'')) \<and>
   requests (snd (fetch_places (ShoppingFinder ''key'') (net_of [esselunga_near]) ''Bergamo'' 3
          (world_of (sconst 0)))) =
     [GeocodeReq ''Bergamo'' ''key'',
      NearbyReq (45.698, 9.677) (3 * 1000) ''grocery_or_supermarket'' ''supermarket'' ''key'',
      TextReq (''Esselunga '' @ ''Bergamo'') ''key'',
      TextReq (''Conad '' @ ''Bergamo'') ''key'',
      TextReq (''Coop '' @ ''Bergamo'') ''key''] \<and>
   text_failed (places_json (net_of [esselunga_near]) (TextReq ''Conad Bergamo'' ''key'')) \<and>
   search_places_text (ShoppingFinder ''key'') (net_of [esselunga_near]) ''Conad Bergamo'' ''Bergamo''
     (world_of (sconst 0)) = ([], issue (TextReq ''Conad Bergamo'' ''key'') (world_of (sconst 0)))"
proof -
  note g = geocode_net_of [of "''key''" "[esselunga_near]" "''Bergamo''" "world_of (sconst 0)"]
  note n = nearby_net_of [of "''key''" "[esselunga_near]" "45.698" "9.677" "3 * 1000" "''supermarket''"
      "issue (GeocodeReq ''Bergamo'' ''key'') (world_of (sconst 0))"]
  have l: "length [esselunga_near] < 3" by simp
  note f = text_failed_net_of [of "[esselunga_near]" "''Conad Bergamo''" "''key''"]
  note t = fetch_places_text_search [OF g n l]
  from t have t1: "fetch_places (ShoppingFinder ''key'') (net_of [esselunga_near]) ''Bergamo'' 3
          (world_of (sconst 0)) =
     (((45.698, 9.677),
      [esselunga_near] @ text_results (net_of [esselunga_near]) ''key'' (''Esselunga '' @ ''Bergamo'')
         @ text_results (net_of [esselunga_near]) ''key'' (''Conad '' @ ''Bergamo'')
         @ text_results (net_of [esselunga_near]) ''key'' (''Coop '' @ ''Bergamo'')),
      (issue (NearbyReq (45.698, 9.677) (3 * 1000) ''grocery_or_supermarket'' ''supermarket'' ''key'')
          (issue (GeocodeReq ''Bergamo'' ''key'') (world_of (sconst 0))))
       \<lparr>requests := requests (issue (NearbyReq (45.698, 9.677) (3 * 1000) ''grocery_or_supermarket'' ''supermarket'' ''key'')
          (issue (GeocodeReq ''Bergamo'' ''key'') (world_of (sconst 0)))) @
                  [TextReq (''Esselunga '' @ ''Bergamo'') ''key'',
                   TextReq (''Conad '' @ ''Bergamo'') ''key'',
                   TextReq (''Coop '' @ ''Bergamo'') ''key'']\<rparr>)"
    by (rule conjunct1)
  from t f have t2: "search_places_text (ShoppingFinder ''key'') (net_of [esselunga_near])
     ''Conad Bergamo'' ''Bergamo'' (world_of (sconst 0)) =
     ([], issue (TextReq ''Conad Bergamo'' ''key'') (world_of (sconst 0)))"
    by blast
  have r: "requests (snd (fetch_places (ShoppingFinder ''key'') (net_of [esselunga_near]) ''Bergamo'' 3
          (world_of (sconst 0)))) =
     [GeocodeReq ''Bergamo'' ''key'',
      NearbyReq (45.698, 9.677) (3 * 1000) ''grocery_or_supermarket'' ''supermarket'' ''key'',
      TextReq (''Esselunga '' @ ''Bergamo'') ''key'',
      TextReq (''Conad '' @ ''Bergamo'') ''key'',
      TextReq (''Coop '' @ ''Bergamo'') ''key'']"
    unfolding t1 by (simp add: issue_def world_of_def)
  have p: "fst (fetch_places (ShoppingFinder ''key'') (net_of [esselunga_near]) ''Bergamo'' 3
          (world_of (sconst 0))) =
     ((45.698, 9.677),
      [esselunga_near] @ text_results (net_of [esselunga_near]) ''key'' (''Esselunga '' @ ''Bergamo'')
         @ text_results (net_of [esselunga_near]) ''key'' (''Conad '' @ ''Bergamo'')
         @ text_results (net_of [esselunga_near]) ''key'' (''Coop '' @ ''Bergamo''))"
    unfolding t1 by (rule fst_conv)
  from g n l p r f t2 show ?thesis by (intro conjI)
qed

subsection \<open>C9: the empty item list\<close>

text \<open>
  C9 as stated fails when the in-range place shares its name with an earlier place that is
  out of range: the loop skips it, no record is assembled and nothing is divided. Here
  the place list holds a far Esselunga and then an Esselunga at the origin, the item list
  is empty, and the six fallback locations (all samples 0) are out of range for radius 3:
  the search returns the empty list.
\<close>

theorem empty_items_counterexample:
  "esselunga_near \<in> set [esselunga_far, esselunga_near] \<and>
   place_distance 45.698 9.677 esselunga_near \<le> 3 \<and>
   fetch_places (ShoppingFinder ''key'') (net_of [esselunga_far, esselunga_near]) ''Bergamo'' 3
     (world_of (sconst 0)) =
     (((45.698, 9.677), [esselunga_far, esselunga_near]),
      fetched ''key'' ''Bergamo'' 3 (world_of (sconst 0))) \<and>
   fst (search_stores (ShoppingFinder ''key'') ascii_str (net_of [esselunga_far, esselunga_near]) []
          ''Bergamo'' 3 (world_of (sconst 0))) = Inr []"
proof -
  have m: "esselunga_near \<in> set [esselunga_far, esselunga_near]" by simp
  have nd: "place_distance 45.698 9.677 esselunga_near \<le> 3" unfolding near_distance by simp
  have l: "length [esselunga_far, esselunga_near] < 3" by simp
  have f: "fetch_places (ShoppingFinder ''key'') (net_of [esselunga_far, esselunga_near]) ''Bergamo'' 3
     (world_of (sconst 0)) =
     (((45.698, 9.677), [esselunga_far, esselunga_near]),
      fetched ''key'' ''Bergamo'' 3 (world_of (sconst 0)))"
    using l by (rule fetch_places_net_of)
  have n: "place.name esselunga_near = place.name esselunga_far"
    by (simp add: esselunga_near_def esselunga_far_def)
  have a: "aggregate_loop ascii_str [] 45.698 9.677 3 [esselunga_far, esselunga_near] [] {}
             (fetched ''key'' ''Bergamo'' 3 (world_of (sconst 0)))
           = (Inr [], fetched ''key'' ''Bergamo'' 3 (world_of (sconst 0)))"
    using far_distance n by (rule aggregate_loop_far_then_same)
  have s: "fst (search_stores (ShoppingFinder ''key'') ascii_str (net_of [esselunga_far, esselunga_near]) []
          ''Bergamo'' 3 (world_of (sconst 0))) = Inr []"
    using a l by (rule run_all_far)
  from m nd f s show ?thesis by (intro conjI)
qed

text \<open>
  C9, amended. With the empty item list, \<open>search_stores\<close> raises \<open>ZeroDivisionError\<close> when
  some in-range place is the first of the place list with its name, or when one of the
  six fallback locations is within range (the fallback loop then draws two samples per
  name). The search button is disabled for the empty list, and for a non-empty list the
  search returns a list of records.
\<close>

theorem empty_items_division_by_zero:
  assumes "fetch_places self nt location max_distance_km w = (((user_lat, user_lon), places), w1)"
      and "(\<exists>p\<in>set places. find (\<lambda>q. place.name q = place.name p) places = Some p \<and>
              place_distance user_lat user_lon p \<le> max_distance_km) \<or>
           (\<exists>j<length (take 6 (common_stores self)).
              fallback_distance user_lat user_lon (rng w1) (2 * j) \<le> max_distance_km)"
  shows "fst (search_stores self S nt [] location max_distance_km w) = Inl ZeroDivisionError \<and>
         search_button_disabled S [] location \<and>
         (\<forall>items. items \<noteq> [] \<longrightarrow>
            (\<exists>stores w'. search_stores self S nt items location max_distance_km w = (Inr stores, w')))"
proof -
  have "fst (search_stores self S nt [] location max_distance_km w) = Inl ZeroDivisionError"
    unfolding search_stores_eq [OF assms(1)] using assms(2) by (rule aggregate_empty_items)
  moreover have "search_button_disabled S [] location"
    by (simp add: search_button_disabled_def)
  moreover have "\<forall>items. items \<noteq> [] \<longrightarrow>
            (\<exists>stores w'. search_stores self S nt items location max_distance_km w = (Inr stores, w'))"
    unfolding search_stores_eq [OF assms(1)] using aggregate_total by blast
  ultimately show ?thesis by (intro conjI)
qed

theorem empty_items_division_by_zero_witness:
  "fetch_places (ShoppingFinder ''key'') (net_of [esselunga_near]) ''Bergamo'' 3
     (world_of (sconst 0)) =
     (((45.698, 9.677), [esselunga_near]), fetched ''key'' ''Bergamo'' 3 (world_of (sconst 0))) \<and>
   esselunga_near \<in> set [esselunga_near] \<and>
   find (\<lambda>q. place.name q = place.name esselunga_near) [esselunga_near] = Some esselunga_near \<and>
   place_distance 45.698 9.677 esselunga_near \<le> 3 \<and>
   fst (search_stores (ShoppingFinder ''key'') ascii_str (net_of [esselunga_near]) []
          ''Bergamo'' 3 (world_of (sconst 0))) = Inl ZeroDivisionError \<and>
   search_button_disabled ascii_str [] ''Bergamo'' \<and>
   [''pasta''] \<noteq> [] \<and>
   (\<exists>stores w'. search_stores (ShoppingFinder ''key'') ascii_str (net_of [esselunga_near])
      [''pasta''] ''Bergamo'' 3 (world_of (sconst 0)) = (Inr stores, w'))"
proof -
  have f: "fetch_places (ShoppingFinder ''key'') (net_of [esselunga_near]) ''Bergamo'' 3
     (world_of (sconst 0)) =
     (((45.698, 9.677), [esselunga_near]), fetched ''key'' ''Bergamo'' 3 (world_of (sconst 0)))"
    by (rule fetch_places_net_of) simp
  have m: "esselunga_near \<in> set [esselunga_near]" by simp
  have fd: "find (\<lambda>q. place.name q = place.name esselunga_near) [esselunga_near] = Some esselunga_near"
    by simp
  have nd: "place_distance 45.698 9.677 esselunga_near \<le> 3" unfolding near_distance by simp
  have ne: "[''pasta''] \<noteq> []" by simp
  from m fd nd have h: "(\<exists>p\<in>set [esselunga_near].
        find (\<lambda>q. place.name q = place.name p) [esselunga_near] = Some p \<and>
        place_distance 45.698 9.677 p \<le> 3) \<or>
      (\<exists>j<length (take 6 (common_stores (ShoppingFinder ''key''))).
        fallback_distance 45.698 9.677 (rng (fetched ''key'' ''Bergamo'' 3 (world_of (sconst 0)))) (2 * j)
          \<le> 3)"
    by (intro disjI1 bexI [of _ esselunga_near] conjI)
  note t = empty_items_division_by_zero [OF f h, of ascii_str]
  note t1 = t [THEN conjunct1]
  note t2 = t [THEN conjunct2, THEN conjunct1]
  note t4 = t [THEN conjunct2, THEN conjunct2, rule_format, OF ne]
  from f m fd nd t1 t2 ne t4 show ?thesis by (intro conjI)
qed

subsection \<open>C10: names repeated by the fallback\<close>

text \<open>
  C10. The fallback generator takes no account of the names already processed: for a
  search whose only live store is an Esselunga at the origin and whose samples are all
  1/2 (perturbation 0), the result holds the live Esselunga and the six fallback
  stores, of which the first is again named Esselunga.
\<close>

theorem fallback_repeats_name:
  "\<exists>stores w'. search_stores (ShoppingFinder ''key'') ascii_str (net_of [esselunga_near])
             [''pasta''] ''Bergamo'' 3 (world_of (sconst (1 / 2))) = (Inr stores, w') \<and>
     map name stores =
       [''Esselunga'', ''Esselunga'', ''Conad'', ''Coop'', ''Carrefour'', ''Lidl'', ''Eurospin''] \<and>
     \<not> distinct (map name stores)"
proof -
  from run_near obtain r fb w' where
    "search_stores (ShoppingFinder ''key'') ascii_str (net_of [esselunga_near])
             [''pasta''] ''Bergamo'' 3 (world_of (sconst (1 / 2))) = (Inr (r # fb), w')"
    "name r = ''Esselunga''"
    "map name fb = [''Esselunga'', ''Conad'', ''Coop'', ''Carrefour'', ''Lidl'', ''Eurospin'']"
    by auto
  then have "search_stores (ShoppingFinder ''key'') ascii_str (net_of [esselunga_near])
             [''pasta''] ''Bergamo'' 3 (world_of (sconst (1 / 2))) = (Inr (r # fb), w') \<and>
     map name (r # fb) =
       [''Esselunga'', ''Esselunga'', ''Conad'', ''Coop'', ''Carrefour'', ''Lidl'', ''Eurospin''] \<and>
     \<not> distinct (map name (r # fb))"
    by simp
  then show ?thesis by (intro exI)
qed

end
